theory Spec2Isabelle
  imports Main "HOL-Library.Sublist"
begin

section \<open>The helm reference generator (hack/helm-reference-gen/main.go)\<close>

text \<open>
  Go strings are byte sequences: a \<^typ>\<open>string\<close> here is the list of the
  bytes. A panic of the Go runtime or of the code is a value of \<open>panic\<close>; a function
  that can panic returns \<open>panic + 'a\<close> with \<open>Inl\<close> for the panic.
\<close>

subsection \<open>The functions of package strings that the generator calls\<close>

abbreviation NL :: char where
  "NL \<equiv> CHR 0x0A"

datatype panic =
    Panic string
  | IndexOutOfRange
  | NegativeRepeatCount

text \<open>\<open>strings.Split(s, "\n")\<close>: one piece more than there are newlines.\<close>

fun Split_lines :: "string \<Rightarrow> string list" where
  "Split_lines [] = [[]]"
| "Split_lines (c # cs) =
     (if c = NL then [] # Split_lines cs
      else (case Split_lines cs of
              [] \<Rightarrow> [[c]]
            | l # ls \<Rightarrow> (c # l) # ls))"

text \<open>\<open>strings.Join(elems, sep)\<close>.\<close>

fun Join :: "string list \<Rightarrow> string \<Rightarrow> string" where
  "Join [] sep = []"
| "Join [x] sep = x"
| "Join (x # y # ys) sep = x @ sep @ Join (y # ys) sep"

text \<open>\<open>strings.HasPrefix\<close>, \<open>strings.TrimPrefix\<close>, \<open>strings.TrimSuffix\<close>,
  \<open>strings.TrimLeft(s, "!")\<close> (the cutset is one character in the source).\<close>

definition HasPrefix :: "string \<Rightarrow> string \<Rightarrow> bool" where
  "HasPrefix s p = prefix p s"

definition TrimPrefix :: "string \<Rightarrow> string \<Rightarrow> string" where
  "TrimPrefix s p = (if prefix p s then drop (length p) s else s)"

definition TrimSuffix :: "string \<Rightarrow> string \<Rightarrow> string" where
  "TrimSuffix s p = (if suffix p s then take (length s - length p) s else s)"

definition TrimLeft :: "string \<Rightarrow> char \<Rightarrow> string" where
  "TrimLeft s c = dropWhile (\<lambda>d. d = c) s"

text \<open>\<open>strings.Repeat(s, count)\<close> panics on a negative count.\<close>

definition Repeat :: "string \<Rightarrow> int \<Rightarrow> panic + string" where
  "Repeat s count =
     (if count < 0 then Inl NegativeRepeatCount
      else Inr (concat (replicate (nat count) s)))"

text \<open>
  The arithmetic of Go's \<open>int\<close>, 64 bits wide: a sum or difference outside the
  range wraps around. (A \<open>strings.Repeat\<close> too long for the memory is not modelled.)
\<close>

definition wrap_int :: "int \<Rightarrow> int" where
  "wrap_int x = (x + 2 ^ 63) mod 2 ^ 64 - 2 ^ 63"

text \<open>
  \<open>strings.ToLower\<close> on the ASCII letters; every other byte is kept. (Go also lowers
  the upper-case letters outside ASCII; nothing below depends on the case of a key.)
\<close>

definition lower_char :: "char \<Rightarrow> char" where
  "lower_char c =
     (let n = (of_char c :: nat) in if 65 \<le> n \<and> n \<le> 90 then char_of (n + 32) else c)"

definition ToLower :: "string \<Rightarrow> string" where
  "ToLower s = map lower_char s"

text \<open>
  \<open>strings.TrimSpace\<close> removes the leading and the trailing white space as
  \<open>unicode.IsSpace\<close> defines it: the six ASCII characters, U+0085 and U+00A0, and the
  characters of the White_Space property beyond Latin-1, each in its UTF-8 encoding.
\<close>

definition space_runes :: "string list" where
  "space_runes =
     [[CHR 0x09], [CHR 0x0A], [CHR 0x0B], [CHR 0x0C], [CHR 0x0D], [CHR 0x20],
      [CHR 0xC2, CHR 0x85], [CHR 0xC2, CHR 0xA0],
      [CHR 0xE1, CHR 0x9A, CHR 0x80],
      [CHR 0xE2, CHR 0x80, CHR 0x80], [CHR 0xE2, CHR 0x80, CHR 0x81],
      [CHR 0xE2, CHR 0x80, CHR 0x82], [CHR 0xE2, CHR 0x80, CHR 0x83],
      [CHR 0xE2, CHR 0x80, CHR 0x84], [CHR 0xE2, CHR 0x80, CHR 0x85],
      [CHR 0xE2, CHR 0x80, CHR 0x86], [CHR 0xE2, CHR 0x80, CHR 0x87],
      [CHR 0xE2, CHR 0x80, CHR 0x88], [CHR 0xE2, CHR 0x80, CHR 0x89],
      [CHR 0xE2, CHR 0x80, CHR 0x8A],
      [CHR 0xE2, CHR 0x80, CHR 0xA8], [CHR 0xE2, CHR 0x80, CHR 0xA9],
      [CHR 0xE2, CHR 0x80, CHR 0xAF], [CHR 0xE2, CHR 0x81, CHR 0x9F],
      [CHR 0xE3, CHR 0x80, CHR 0x80]]"

fun trim_runes :: "string list \<Rightarrow> string \<Rightarrow> string" where
  "trim_runes rs [] = []"
| "trim_runes rs (c # cs) =
     (case find (\<lambda>r. r \<noteq> [] \<and> prefix r (c # cs)) rs of
        None \<Rightarrow> c # cs
      | Some r \<Rightarrow> trim_runes rs (drop (length r - 1) cs))"

definition TrimSpace :: "string \<Rightarrow> string" where
  "TrimSpace s = rev (trim_runes (map rev space_runes) (rev (trim_runes space_runes s)))"

subsection \<open>The three regular expressions\<close>

text \<open>
  \<open>typeFromDescription = (?m).*type: (.*)$\<close> and
  \<open>defaultFromDescription = (?m).*default: (.*)$\<close>, used through
  \<open>FindStringSubmatch\<close>. A dot matches every byte but the newline and, under
  \<open>(?m)\<close>, \<open>$\<close> matches before a newline and at the end of the text, so a match
  lies within one line. Go returns the leftmost match: no match starts in a line
  that does not hold the literal, so the match is in the first line that holds it.
  The first \<open>.*\<close> is greedy: it is tried longest first, so within that line the
  last occurrence of the literal is taken, and the group is the rest of the line.
  \<open>after_literal lit line\<close> is the group for one line, \<open>None\<close> when the line has
  no match; \<open>FindStringSubmatch1 lit s\<close> is \<open>match[1]\<close>, \<open>None\<close> when
  \<open>FindStringSubmatch\<close> returns nil.
\<close>

fun after_literal :: "string \<Rightarrow> string \<Rightarrow> string option" where
  "after_literal lit [] = (if lit = [] then Some [] else None)"
| "after_literal lit (c # cs) =
     (case after_literal lit cs of
        Some g \<Rightarrow> Some g
      | None \<Rightarrow> if prefix lit (c # cs) then Some (drop (length lit) (c # cs)) else None)"

fun first_match :: "string \<Rightarrow> string list \<Rightarrow> string option" where
  "first_match lit [] = None"
| "first_match lit (l # ls) =
     (case after_literal lit l of
        Some g \<Rightarrow> Some g
      | None \<Rightarrow> first_match lit ls)"

definition FindStringSubmatch1 :: "string \<Rightarrow> string \<Rightarrow> string option" where
  "FindStringSubmatch1 lit s = first_match lit (Split_lines s)"

definition typeFromDescription :: "string \<Rightarrow> string option" where
  "typeFromDescription s = FindStringSubmatch1 ''type: '' s"

definition defaultFromDescription :: "string \<Rightarrow> string option" where
  "defaultFromDescription s = FindStringSubmatch1 ''default: '' s"

text \<open>
  \<open>commentPrefix = [^\S\n]*#[^\S\n]?\<close>, used through
  \<open>ReplaceAllString(s, "")\<close>: every match is deleted, scanning from the left. The
  class \<open>[^\S\n]\<close> is the white space of \<open>\s\<close> (tab, newline, form feed,
  carriage return, space) without the newline. A match starts at a \<open>#\<close> or at a
  run of such blanks that ends in a \<open>#\<close>, and takes one blank after the \<open>#\<close>
  when there is one.
\<close>

definition blank :: "char \<Rightarrow> bool" where
  "blank c = (c = CHR 0x09 \<or> c = CHR 0x0C \<or> c = CHR 0x0D \<or> c = CHR 0x20)"

definition blanks_then_hash :: "string \<Rightarrow> bool" where
  "blanks_then_hash s = (case dropWhile blank s of [] \<Rightarrow> False | c # cs \<Rightarrow> c = CHR ''#'')"

fun commentPrefix_delete :: "string \<Rightarrow> string" where
  "commentPrefix_delete [] = []"
| "commentPrefix_delete (c # cs) =
     (if c = CHR ''#'' then
        (case cs of
           [] \<Rightarrow> []
         | d # ds \<Rightarrow> if blank d then commentPrefix_delete ds else commentPrefix_delete cs)
      else if blank c \<and> blanks_then_hash cs then commentPrefix_delete cs
      else c # commentPrefix_delete cs)"

subsection \<open>The documentation tree\<close>

text \<open>The struct \<open>YAMLNode\<close>; it holds its children, so it is a datatype.\<close>

datatype YAMLNode = YAMLNode
  (Indent: int)
  (ParentAnchor: string)
  (ParentWasMap: bool)
  (Key: string)
  (Default: string)
  (Description: string)
  (KindTag: string)
  (Children: "YAMLNode list")

text \<open>The zero value \<open>YAMLNode{}\<close>.\<close>

definition zero_YAMLNode :: YAMLNode where
  "zero_YAMLNode = YAMLNode 0 [] False [] [] [] [] []"

definition Anchor :: "YAMLNode \<Rightarrow> string" where
  "Anchor y = ParentAnchor y @ ''-'' @ ToLower (Key y)"

definition Kind :: "YAMLNode \<Rightarrow> string" where
  "Kind y =
     (case typeFromDescription (Description y) of
        Some m \<Rightarrow> m
      | None \<Rightarrow>
          (let t = TrimLeft (KindTag y) (CHR ''!'') in
           if t = ''str'' then ''string''
           else if t = ''int'' then ''integer''
           else if t = ''bool'' then ''boolean''
           else if t = ''map'' then ''map''
           else ''unknown kind '' @ [CHR 0x27] @ KindTag y @ [CHR 0x27]))"

definition FormattedDefault :: "YAMLNode \<Rightarrow> string" where
  "FormattedDefault y =
     (case defaultFromDescription (Description y) of
        Some m \<Rightarrow> m
      | None \<Rightarrow>
          if Kind y = ''array<map>'' then []
          else if Default y \<noteq> [] then
            (if length (Split_lines (Default y)) > 2 then []
             else TrimSpace (Default y))
          else [CHR 0x22, CHR 0x22])"

text \<open>
  The loop of \<open>FormattedDescription\<close> over the lines, \<open>i\<close> the index of the line and
  \<open>acc\<close> the variable \<open>withWhitespaceIndent\<close>.
\<close>

fun FormattedDescription_loop :: "YAMLNode \<Rightarrow> nat \<Rightarrow> string list \<Rightarrow> string \<Rightarrow> panic + string" where
  "FormattedDescription_loop y i [] acc = Inr acc"
| "FormattedDescription_loop y i (line # lines) acc =
     (if HasPrefix line ''type:'' \<or> HasPrefix line ''default:'' then
        FormattedDescription_loop y (Suc i) lines acc
      else if i = 0 then
        FormattedDescription_loop y (Suc i) lines (line @ [NL])
      else if line \<noteq> [] then
        (case Repeat '' '' (if ParentWasMap y then Indent y else wrap_int (Indent y + 1)) of
           Inl e \<Rightarrow> Inl e
         | Inr sp \<Rightarrow> FormattedDescription_loop y (Suc i) lines (acc @ sp @ line @ [NL]))
      else
        FormattedDescription_loop y (Suc i) lines (acc @ [NL]))"

definition FormattedDescription :: "YAMLNode \<Rightarrow> panic + string" where
  "FormattedDescription y =
     (case FormattedDescription_loop y 0 (Split_lines (commentPrefix_delete (Description y))) [] of
        Inl e \<Rightarrow> Inl e
      | Inr withWhitespaceIndent \<Rightarrow> Inr (TrimSuffix withWhitespaceIndent [NL]))"

definition LeadingIndent :: "YAMLNode \<Rightarrow> panic + string" where
  "LeadingIndent y =
     Repeat '' '' (if ParentWasMap y then wrap_int (Indent y - 3) else wrap_int (Indent y - 1))"

subsection \<open>The parsed document (yaml.Node of gopkg.in/yaml.v3)\<close>

text \<open>
  The parser is not part of the repository: the builder is modelled on the node
  graph it returns. \<open>NoKind\<close> is the zero value of \<open>yaml.Kind\<close>.
\<close>

datatype yaml_kind = NoKind | DocumentNode | SequenceNode | MappingNode | ScalarNode | AliasNode

datatype yaml_node = Node
  (nKind: yaml_kind)
  (nTag: string)
  (nValue: string)
  (nHeadComment: string)
  (nColumn: int)
  (nContent: "yaml_node list")

text \<open>
  \<open>yaml.Marshal\<close> of the struct \<open>Intermediary\<close> of \<open>toYaml\<close> is a parameter:
  \<open>marshal content\<close> is the error or the output of the library.
\<close>

type_synonym marshal = "yaml_node list \<Rightarrow> string + string"

definition allScalars :: "yaml_node list \<Rightarrow> bool" where
  "allScalars content = list_all (\<lambda>n. \<not> (nKind n \<noteq> ScalarNode \<or> length (nContent n) > 0)) content"

definition toYaml :: "marshal \<Rightarrow> yaml_node list \<Rightarrow> panic + string" where
  "toYaml m content =
     (case m content of
        Inl err \<Rightarrow> Inl (Panic err)
      | Inr out \<Rightarrow> Inr (TrimPrefix out ''arr: ''))"

text \<open>The assignment \<open>node.Children = cs\<close>.\<close>

fun set_Children :: "YAMLNode \<Rightarrow> YAMLNode list \<Rightarrow> YAMLNode" where
  "set_Children (YAMLNode i pa pwm k d desc kt old) cs = YAMLNode i pa pwm k d desc kt cs"

text \<open>
  \<open>ParseChildren\<close>, its loop and \<open>ParseNode\<close>. The loop runs over the rest of
  \<open>n.Content\<close> from index \<open>i\<close>, with \<open>len = len(n.Content)\<close>; the flag
  \<open>skipNext\<close> is the step over \<open>next\<close>. In the branch \<open>len(n.Content) == 1\<close>
  the loop is at index 0, so \<open>n.Content[0]\<close> is \<open>child\<close>.
\<close>

fun ParseChildren :: "marshal \<Rightarrow> yaml_node \<Rightarrow> string \<Rightarrow> bool \<Rightarrow> panic + YAMLNode list"
and ParseChildren_loop ::
  "marshal \<Rightarrow> nat \<Rightarrow> nat \<Rightarrow> yaml_node list \<Rightarrow> YAMLNode list \<Rightarrow> string \<Rightarrow> bool \<Rightarrow> panic + YAMLNode list"
and ParseNode :: "marshal \<Rightarrow> yaml_node \<Rightarrow> string \<Rightarrow> panic + YAMLNode"
where
  "ParseChildren m (Node k t v h c content) parentAnchor parentWasMap =
     ParseChildren_loop m (length content) 0 content [] parentAnchor parentWasMap"
| "ParseChildren_loop m len i [] children parentAnchor parentWasMap = Inr children"
| "ParseChildren_loop m len i (child # rest) children parentAnchor parentWasMap =
     (if nKind child = ScalarNode then
        (if len < i + 1 then Inl (Panic ''wrong length'')
         else
           (case rest of
              [] \<Rightarrow> Inl IndexOutOfRange
            | next # rest' \<Rightarrow>
                (case nKind next of
                   ScalarNode \<Rightarrow>
                     ParseChildren_loop m len (i + 2) rest'
                       (children @ [YAMLNode (nColumn child) parentAnchor parentWasMap (nValue child)
                          (nValue next) (nHeadComment child) (nTag next) []])
                       parentAnchor parentWasMap
                 | MappingNode \<Rightarrow>
                     (let mapNode = YAMLNode (nColumn child) parentAnchor parentWasMap (nValue child)
                          [] (nHeadComment child) (nTag next) [] in
                      case ParseChildren m next (Anchor mapNode) False of
                        Inl e \<Rightarrow> Inl e
                      | Inr cs \<Rightarrow>
                          ParseChildren_loop m len (i + 2) rest'
                            (children @ [set_Children mapNode cs]) parentAnchor parentWasMap)
                 | SequenceNode \<Rightarrow>
                     (if length (nContent next) = 0 then
                        ParseChildren_loop m len (i + 2) rest'
                          (children @ [YAMLNode (nColumn child) parentAnchor parentWasMap (nValue child)
                             ''[]'' (nHeadComment child) (nTag next) []])
                          parentAnchor parentWasMap
                      else if allScalars (nContent next) then
                        (case toYaml m (nContent next) of
                           Inl e \<Rightarrow> Inl e
                         | Inr d \<Rightarrow>
                             ParseChildren_loop m len (i + 2) rest'
                               (children @ [YAMLNode (nColumn child) parentAnchor parentWasMap (nValue child)
                                  d (nHeadComment child) (nTag next) []])
                               parentAnchor parentWasMap)
                      else
                        (let seqNode = YAMLNode (nColumn child) parentAnchor parentWasMap (nValue child)
                             [] (nHeadComment child) (nTag next) [] in
                         case ParseChildren m next (Anchor seqNode) False of
                           Inl e \<Rightarrow> Inl e
                         | Inr cs \<Rightarrow>
                             ParseChildren_loop m len (i + 2) rest'
                               (children @ [set_Children seqNode cs]) parentAnchor parentWasMap))
                 | _ \<Rightarrow> ParseChildren_loop m len (i + 2) rest' children parentAnchor parentWasMap)))
      else if len = 1 then ParseChildren m child parentAnchor True
      else
        (case ParseNode m child parentAnchor of
           Inl e \<Rightarrow> Inl e
         | Inr nd \<Rightarrow>
             ParseChildren_loop m len (i + 1) rest (children @ [nd]) parentAnchor parentWasMap))"
| "ParseNode m (Node k t v h c content) parentAnchor =
     (case k of
        DocumentNode \<Rightarrow>
          (case content of
             [] \<Rightarrow> Inl IndexOutOfRange
           | c0 # cs \<Rightarrow> ParseNode m c0 [])
      | MappingNode \<Rightarrow>
          (if parentAnchor = [] then
             (case ParseChildren m (Node k t v h c content) [] False of
                Inl e \<Rightarrow> Inl e
              | Inr cs \<Rightarrow> Inr (YAMLNode 0 [] False [] [] [] [] cs))
           else
             (case ParseChildren m (Node k t v h c content) parentAnchor False of
                Inl e \<Rightarrow> Inl e
              | Inr cs \<Rightarrow> Inr (YAMLNode c parentAnchor False v [] h t cs)))
      | ScalarNode \<Rightarrow> Inl (Panic ''scalars should not be parsed here'')
      | _ \<Rightarrow> Inr zero_YAMLNode)"

subsection \<open>Rendering\<close>

text \<open>
  The two declared errors of \<open>Gen\<close>: the error of \<open>yaml.Unmarshal\<close>, and the error
  of \<open>Template.Execute\<close>, which recovers a panic of a method it calls and returns it.
\<close>

datatype error = ParseError string | ExecError panic

text \<open>
  \<open>tm.Execute(&nodeOut, child)\<close> for the template \<open>tmpl\<close> (each \<open>$\<close> replaced by a
  backquote, \<open>CHR 0x60\<close>): the text written for one node.
\<close>

definition Execute :: "YAMLNode \<Rightarrow> error + string" where
  "Execute y =
     (case LeadingIndent y of
        Inl e \<Rightarrow> Inl (ExecError e)
      | Inr leading \<Rightarrow>
          (case FormattedDescription y of
             Inl e \<Rightarrow> Inl (ExecError e)
           | Inr descr \<Rightarrow>
               Inr (leading @ ''- '' @ [CHR 0x60] @ Key y @ [CHR 0x60] @ '' ((#v'' @ Anchor y @ ''))''
                    @ (if Kind y \<noteq> ''map'' then
                         '' ('' @ [CHR 0x60] @ Kind y
                         @ (if FormattedDefault y \<noteq> [] then '': '' @ FormattedDefault y else [])
                         @ [CHR 0x60] @ '')''
                       else [])
                    @ (if descr \<noteq> [] then '' - '' @ descr else []))))"

fun GenChildren :: "YAMLNode \<Rightarrow> error + string list"
and GenChildren_loop :: "YAMLNode list \<Rightarrow> string list \<Rightarrow> error + string list"
where
  "GenChildren (YAMLNode i pa pwm k d desc kt children) = GenChildren_loop children []"
| "GenChildren_loop [] out = Inr out"
| "GenChildren_loop (child # rest) out =
     (case Execute child of
        Inl err \<Rightarrow> Inl err
      | Inr nodeOut \<Rightarrow>
          (case GenChildren child of
             Inl err \<Rightarrow> Inl err
           | Inr childOut \<Rightarrow> GenChildren_loop rest ((out @ [nodeOut]) @ childOut)))"

text \<open>
  \<open>yaml.Unmarshal\<close> into a \<open>yaml.Node\<close> is a parameter: \<open>unmarshal yamlStr\<close> is the
  error or the node of the library. \<open>Parse\<close> and \<open>Gen\<close> return a pair of a value and
  an error (\<open>None\<close> for nil), or panic.
\<close>

type_synonym unmarshal = "string \<Rightarrow> string + yaml_node"

definition Parse :: "unmarshal \<Rightarrow> marshal \<Rightarrow> string \<Rightarrow> panic + (YAMLNode \<times> error option)" where
  "Parse u m yamlStr =
     (case u yamlStr of
        Inl err \<Rightarrow> Inr (zero_YAMLNode, Some (ParseError err))
      | Inr node \<Rightarrow>
          (case ParseNode m node [] of
             Inl p \<Rightarrow> Inl p
           | Inr y \<Rightarrow> Inr (y, None)))"

definition Gen :: "unmarshal \<Rightarrow> marshal \<Rightarrow> string \<Rightarrow> panic + (string \<times> error option)" where
  "Gen u m yamlStr =
     (case Parse u m yamlStr of
        Inl p \<Rightarrow> Inl p
      | Inr (node, Some err) \<Rightarrow> Inr ([], Some err)
      | Inr (node, None) \<Rightarrow>
          (case GenChildren node of
             Inl err \<Rightarrow> Inr (Join [] [NL, NL], Some err)
           | Inr children \<Rightarrow> Inr (Join children [NL, NL], None)))"

subsection \<open>Shapes of a container's content\<close>

text \<open>
  \<open>dangling_key content\<close>: walking the content as the loop does (a scalar is a key
  and takes the next node as its value, any other node stands alone), the last node
  is a key with no value after it.
\<close>

fun dangling_key :: "yaml_node list \<Rightarrow> bool" where
  "dangling_key [] = False"
| "dangling_key [c] = (nKind c = ScalarNode)"
| "dangling_key (c # d # rest) =
     (if nKind c = ScalarNode then dangling_key rest else dangling_key (d # rest))"

text \<open>
  \<open>scalar_keys content\<close>: every node met as a key is a scalar, as in the content of a
  mapping with plain keys. \<open>entries content\<close> are its key/value pairs whose value
  is a scalar, a mapping or a sequence: the pairs for which the switch of the loop
  has a case.
\<close>

fun scalar_keys :: "yaml_node list \<Rightarrow> bool" where
  "scalar_keys [] = True"
| "scalar_keys [c] = (nKind c = ScalarNode)"
| "scalar_keys (key # val # rest) = (nKind key = ScalarNode \<and> scalar_keys rest)"

fun entries :: "yaml_node list \<Rightarrow> (yaml_node \<times> yaml_node) list" where
  "entries [] = []"
| "entries [c] = []"
| "entries (key # val # rest) =
     (if nKind val = ScalarNode \<or> nKind val = MappingNode \<or> nKind val = SequenceNode
      then (key, val) # entries rest else entries rest)"

text \<open>
  \<open>has_children_shape val\<close>: the value is a mapping, or a sequence whose elements
  are not all scalars. \<open>built_for pwm (key, val) y\<close>: the node \<open>y\<close> has the key of
  the pair and the flag \<open>pwm\<close>, and it has children only if the value has that
  shape.
\<close>

definition has_children_shape :: "yaml_node \<Rightarrow> bool" where
  "has_children_shape val =
     (nKind val = MappingNode \<or> (nKind val = SequenceNode \<and> \<not> allScalars (nContent val)))"

definition built_for :: "bool \<Rightarrow> yaml_node \<times> yaml_node \<Rightarrow> YAMLNode \<Rightarrow> bool" where
  "built_for pwm e y =
     (Key y = nValue (fst e) \<and> ParentWasMap y = pwm
      \<and> (Children y \<noteq> [] \<longrightarrow> has_children_shape (snd e)))"

subsection \<open>Occurrences of a literal\<close>

text \<open>\<open>has_literal lit s\<close>: the text \<open>lit\<close> occurs in \<open>s\<close>.\<close>

fun has_literal :: "string \<Rightarrow> string \<Rightarrow> bool" where
  "has_literal lit [] = (lit = [])"
| "has_literal lit (c # cs) = (prefix lit (c # cs) \<or> has_literal lit cs)"

subsection \<open>The rendered description, line by line\<close>

text \<open>
  \<open>description_indent y\<close> is the variable \<open>indent\<close> of \<open>FormattedDescription\<close>.
  \<open>is_override_line\<close> is the test that makes the loop skip a line. \<open>kept_lines i ls\<close>
  are the lines that are not skipped, each with its index in the text, counted from
  \<open>i\<close>. \<open>render_line ind (i, l)\<close> is what a kept line contributes, without its
  newline: the line as it is at index 0, nothing for a blank line, and the line
  after \<open>ind\<close> spaces otherwise. \<open>needs_indent\<close>: some kept line calls
  \<open>strings.Repeat\<close>.
\<close>

definition description_indent :: "YAMLNode \<Rightarrow> int" where
  "description_indent y = (if ParentWasMap y then Indent y else wrap_int (Indent y + 1))"

definition is_override_line :: "string \<Rightarrow> bool" where
  "is_override_line l = (HasPrefix l ''type:'' \<or> HasPrefix l ''default:'')"

definition kept_lines :: "nat \<Rightarrow> string list \<Rightarrow> (nat \<times> string) list" where
  "kept_lines i ls = filter (\<lambda>e. \<not> is_override_line (snd e)) (enumerate i ls)"

definition render_line :: "nat \<Rightarrow> nat \<times> string \<Rightarrow> string" where
  "render_line ind e =
     (if fst e = 0 then snd e
      else if snd e = [] then []
      else replicate ind (CHR '' '') @ snd e)"

definition needs_indent :: "(nat \<times> string) list \<Rightarrow> bool" where
  "needs_indent es = list_ex (\<lambda>e. fst e \<noteq> 0 \<and> snd e \<noteq> []) es"

subsection \<open>The nodes below a node, in pre-order\<close>

text \<open>
  \<open>descendants n\<close>: each child of \<open>n\<close>, in order, followed at once by its own
  descendants; \<open>n\<close> itself is not among them. \<open>fragment_of y s\<close>: the template
  writes \<open>s\<close> for \<open>y\<close>.
\<close>

fun descendants :: "YAMLNode \<Rightarrow> YAMLNode list" where
  "descendants (YAMLNode i pa pwm k d desc kt children) =
     concat (map (\<lambda>c. c # descendants c) children)"

definition fragment_of :: "YAMLNode \<Rightarrow> string \<Rightarrow> bool" where
  "fragment_of y s = (Execute y = Inr s)"

subsection \<open>Stand-ins for the library in the examples\<close>

text \<open>
  A parser that returns a given node, and a marshaller that writes the values of
  plain scalars in flow style followed by a newline, as \<open>yaml.Marshal\<close> does for
  \<open>Intermediary\<close> (\<open>arr: [a, b]\<close>).
\<close>

definition parser_returning :: "yaml_node \<Rightarrow> unmarshal" where
  "parser_returning doc yamlStr = Inr doc"

definition example_marshal :: marshal where
  "example_marshal content = Inr (''arr: ['' @ Join (map nValue content) '', '' @ '']'' @ [NL])"

subsection \<open>Where the children of a node come from\<close>

text \<open>
  \<open>children_from m (key, val) y\<close>: the node \<open>y\<close> has no children, or its children
  are what \<open>ParseChildren\<close> returned for the value, called with the flag unset.
\<close>

definition children_from :: "marshal \<Rightarrow> yaml_node \<times> yaml_node \<Rightarrow> YAMLNode \<Rightarrow> bool" where
  "children_from m e y =
     (Children y = [] \<or> (\<exists>a. ParseChildren m (snd e) a False = Inr (Children y)))"

subsection \<open>The parts of a fragment\<close>

text \<open>
  \<open>leading_indent y\<close> is the variable \<open>indent\<close> of \<open>LeadingIndent\<close>. \<open>header y leading\<close>
  is what the template writes up to the anchor, and \<open>description_part d\<close> what it
  writes for the description \<open>d\<close>.
\<close>

definition leading_indent :: "YAMLNode \<Rightarrow> int" where
  "leading_indent y = (if ParentWasMap y then wrap_int (Indent y - 3) else wrap_int (Indent y - 1))"

definition header :: "YAMLNode \<Rightarrow> string \<Rightarrow> string" where
  "header y leading =
     leading @ ''- '' @ [CHR 0x60] @ Key y @ [CHR 0x60] @ '' ((#v'' @ Anchor y @ ''))''"

definition description_part :: "string \<Rightarrow> string" where
  "description_part d = (if d \<noteq> [] then '' - '' @ d else [])"

section \<open>Properties of the tree builder\<close>

lemma ParseChildren_loop_dangling:
  "dangling_key xs \<Longrightarrow> (len = 1 \<longrightarrow> length xs \<le> 1) \<Longrightarrow>
   \<exists>p. ParseChildren_loop m len i xs children pa pwm = Inl p"
proof (induction xs arbitrary: i children rule: dangling_key.induct)
  case 1
  then show ?case by simp
next
  case (2 c)
  then show ?case by simp
next
  case (3 c d rest)
  have len1: "len \<noteq> 1" using 3(4) by auto
  show ?case
  proof (cases "nKind c = ScalarNode")
    case True
    then have dr: "dangling_key rest" using 3(3) by simp
    have IH: "\<And>i children. \<exists>p. ParseChildren_loop m len i rest children pa pwm = Inl p"
      using 3(1)[OF True dr] len1 by simp
    show ?thesis
      using True IH
      by (auto simp: Let_def split: yaml_kind.splits sum.splits)
  next
    case False
    then have dr: "dangling_key (d # rest)" using 3(3) by simp
    have IH: "\<And>i children. \<exists>p. ParseChildren_loop m len i (d # rest) children pa pwm = Inl p"
      using 3(2)[OF False dr] len1 by simp
    show ?thesis
      using False len1 IH[of "i + 1"]
      by (cases "ParseNode m c pa")
         (auto simp del: ParseNode.simps ParseChildren_loop.simps(2)
               simp add: ParseChildren_loop.simps(2)[of m len i c "d # rest"])
  qed
qed

text \<open>
  C9. A container whose content ends in a key scalar with no value node after it
  makes \<open>ParseChildren\<close> panic: no list of nodes is returned, so no node is made for
  that key. (When the loop reaches the key the panic is the index error of
  \<open>n.Content[i+1]\<close>; the test \<open>len(n.Content) < i+1\<close> before it never holds.)
\<close>

theorem ParseChildren_dangling_key_panics:
  "dangling_key content \<Longrightarrow> \<exists>p. ParseChildren m (Node k t v h c content) pa pwm = Inl p"
  using ParseChildren_loop_dangling[of content "length content" m 0 "[]" pa pwm] by auto

theorem ParseChildren_dangling_key_panics_witness:
  "dangling_key [Node ScalarNode ''!!str'' ''a'' [] 1 [], Node ScalarNode ''!!int'' ''1'' [] 4 [],
                 Node ScalarNode ''!!str'' ''b'' [] 1 []]
   \<and> (\<exists>p. ParseChildren example_marshal (Node MappingNode ''!!map'' [] [] 1
          [Node ScalarNode ''!!str'' ''a'' [] 1 [], Node ScalarNode ''!!int'' ''1'' [] 4 [],
           Node ScalarNode ''!!str'' ''b'' [] 1 []]) [] False = Inl p)"
  using ParseChildren_dangling_key_panics[of
      "[Node ScalarNode ''!!str'' ''a'' [] 1 [], Node ScalarNode ''!!int'' ''1'' [] 4 [],
        Node ScalarNode ''!!str'' ''b'' [] 1 []]" example_marshal MappingNode "''!!map''" "[]" "[]" 1 "[]" False]
  by simp

text \<open>
  C10, as the code has it. \<open>Gen\<close> is not total on the documents the parser
  returns: on a document whose top-level value is a scalar \<open>ParseNode\<close> panics, and
  neither a markdown string nor an error is returned. On the empty text the parser
  leaves the node as it was declared, with the kind zero; \<open>ParseNode\<close> has no case
  for it, and \<open>Gen\<close> returns the empty string and no error.
\<close>

theorem Gen_panics_on_scalar_document:
  "(u s = Inr (Node DocumentNode t v h c (Node ScalarNode t' v' h' c' cs' # rest)) \<longrightarrow>
      Gen u m s = Inl (Panic ''scalars should not be parsed here''))
   \<and> (u s' = Inr (Node NoKind t'' v'' h'' c'' cs'') \<longrightarrow> Gen u m s' = Inr ([], None))"
  by (simp add: Gen_def Parse_def zero_YAMLNode_def)

text \<open>The theorem at the document \<open>foo\<close> and at the empty text.\<close>

theorem Gen_panics_on_scalar_document_witness:
  "Gen (parser_returning (Node DocumentNode [] [] [] 1 [Node ScalarNode ''!!str'' ''foo'' [] 1 []]))
        example_marshal ''foo'' = Inl (Panic ''scalars should not be parsed here'')
   \<and> Gen (parser_returning (Node NoKind [] [] [] 0 [])) example_marshal [] = Inr ([], None)"
  using Gen_panics_on_scalar_document[of
          "parser_returning (Node DocumentNode [] [] [] 1 [Node ScalarNode ''!!str'' ''foo'' [] 1 []])"
          "''foo''" "[]" "[]" "[]" 1 "''!!str''" "''foo''" "[]" 1 "[]" "[]" example_marshal]
        Gen_panics_on_scalar_document[of
          "parser_returning (Node NoKind [] [] [] 0 [])"
          "[]" "[]" "[]" "[]" 1 "''!!str''" "''foo''" "[]" 1 "[]" "[]" example_marshal
          "[]" "[]" "[]" "[]" 0 "[]"]
  by (simp add: parser_returning_def)

text \<open>
  C10 as the specification states it fails for the empty document: the node the
  parser leaves for the empty text makes \<open>Gen\<close> return the empty string without an
  error, not panic.
\<close>

theorem Gen_returns_on_empty_text:
  "Gen (parser_returning (Node NoKind [] [] [] 0 [])) example_marshal [] = Inr ([], None)
   \<and> Gen (parser_returning (Node NoKind [] [] [] 0 [])) example_marshal []
       \<noteq> Inl IndexOutOfRange"
  by (simp add: Gen_def Parse_def parser_returning_def zero_YAMLNode_def)

lemma set_Children_sel [simp]:
  "Children (set_Children y cs) = cs" "Key (set_Children y cs) = Key y"
  "ParentWasMap (set_Children y cs) = ParentWasMap y"
  by (cases y; simp)+

lemma ParseChildren_loop_step:
  assumes k: "nKind key = ScalarNode"
    and r: "ParseChildren_loop m len i (key # val # rest) children pa pwm = Inr ys"
  shows "if nKind val = ScalarNode \<or> nKind val = MappingNode \<or> nKind val = SequenceNode
         then \<exists>y. built_for pwm (key, val) y
                \<and> ParseChildren_loop m len (i + 2) rest (children @ [y]) pa pwm = Inr ys
         else ParseChildren_loop m len (i + 2) rest children pa pwm = Inr ys"
proof (cases "nKind val")
  case ScalarNode
  let ?y = "YAMLNode (nColumn key) pa pwm (nValue key) (nValue val) (nHeadComment key) (nTag val) []"
  from k r ScalarNode
  have "ParseChildren_loop m len (i + 2) rest (children @ [?y]) pa pwm = Inr ys"
    by (simp split: if_splits)
  then have "built_for pwm (key, val) ?y
      \<and> ParseChildren_loop m len (i + 2) rest (children @ [?y]) pa pwm = Inr ys"
    by (simp add: built_for_def)
  then have "\<exists>y. built_for pwm (key, val) y
      \<and> ParseChildren_loop m len (i + 2) rest (children @ [y]) pa pwm = Inr ys"
    by blast
  then show ?thesis using ScalarNode by simp
next
  case MappingNode
  let ?n = "YAMLNode (nColumn key) pa pwm (nValue key) [] (nHeadComment key) (nTag val) []"
  from k r MappingNode obtain cs
    where "ParseChildren_loop m len (i + 2) rest (children @ [set_Children ?n cs]) pa pwm = Inr ys"
    by (auto simp: Let_def split: if_splits sum.splits)
  then have "built_for pwm (key, val) (set_Children ?n cs)
      \<and> ParseChildren_loop m len (i + 2) rest (children @ [set_Children ?n cs]) pa pwm = Inr ys"
    using MappingNode by (simp add: built_for_def has_children_shape_def)
  then have "\<exists>y. built_for pwm (key, val) y
      \<and> ParseChildren_loop m len (i + 2) rest (children @ [y]) pa pwm = Inr ys"
    by blast
  then show ?thesis using MappingNode by simp
next
  case SequenceNode
  from k r SequenceNode obtain y
    where l: "ParseChildren_loop m len (i + 2) rest (children @ [y]) pa pwm = Inr ys"
      and ky: "Key y = nValue key" and py: "ParentWasMap y = pwm"
      and cy: "Children y \<noteq> [] \<longrightarrow> \<not> allScalars (nContent val)"
    by (auto simp: Let_def split: if_splits sum.splits)
  then have "built_for pwm (key, val) y
      \<and> ParseChildren_loop m len (i + 2) rest (children @ [y]) pa pwm = Inr ys"
    using SequenceNode by (simp add: built_for_def has_children_shape_def)
  then have "\<exists>y. built_for pwm (key, val) y
      \<and> ParseChildren_loop m len (i + 2) rest (children @ [y]) pa pwm = Inr ys"
    by blast
  then show ?thesis using SequenceNode by simp
next
  case NoKind
  with assms show ?thesis by (auto split: if_splits)
next
  case DocumentNode
  with assms show ?thesis by (auto split: if_splits)
next
  case AliasNode
  with assms show ?thesis by (auto split: if_splits)
qed

lemma ParseChildren_loop_entries:
  "scalar_keys xs \<Longrightarrow> ParseChildren_loop m len i xs children pa pwm = Inr ys \<Longrightarrow>
   \<exists>new. ys = children @ new \<and> list_all2 (built_for pwm) (entries xs) new"
proof (induction xs arbitrary: i children rule: scalar_keys.induct)
  case 1
  then show ?case by simp
next
  case (2 c)
  then show ?case by (simp split: if_splits)
next
  case (3 key val rest)
  have k: "nKind key = ScalarNode" and sr: "scalar_keys rest" using 3(2) by simp_all
  note IH = 3(1)[OF sr]
  note step = ParseChildren_loop_step[OF k 3(3)]
  show ?case
  proof (cases "nKind val = ScalarNode \<or> nKind val = MappingNode \<or> nKind val = SequenceNode")
    case True
    with step obtain y where y: "built_for pwm (key, val) y"
      and l: "ParseChildren_loop m len (i + 2) rest (children @ [y]) pa pwm = Inr ys"
      by auto
    from IH[OF l] obtain new where "ys = (children @ [y]) @ new"
      and "list_all2 (built_for pwm) (entries rest) new" by blast
    with y True show ?thesis by (intro exI[of _ "y # new"]) simp
  next
    case False
    with step have l: "ParseChildren_loop m len (i + 2) rest children pa pwm = Inr ys" by simp
    from IH[OF l] False show ?thesis by simp
  qed
qed

lemma ParseChildren_entries:
  "scalar_keys content \<Longrightarrow> ParseChildren m (Node k t v h c content) pa pwm = Inr ys \<Longrightarrow>
   list_all2 (built_for pwm) (entries content) ys"
  using ParseChildren_loop_entries[of content m "length content" 0 "[]" pa pwm ys] by simp

lemma flag_of_entries:
  assumes "list_all2 (built_for pwm) es ys"
  shows "\<forall>y\<in>set ys. ParentWasMap y = pwm"
  using assms by (induction rule: list_all2_induct) (auto simp: built_for_def)

lemma ParseChildren_loop_step_below:
  assumes k: "nKind key = ScalarNode"
    and r: "ParseChildren_loop m len i (key # val # rest) children pa pwm = Inr ys"
    and kinds: "nKind val = ScalarNode \<or> nKind val = MappingNode \<or> nKind val = SequenceNode"
  shows "\<exists>y. children_from m (key, val) y
              \<and> ParseChildren_loop m len (i + 2) rest (children @ [y]) pa pwm = Inr ys"
proof -
  let ?n = "YAMLNode (nColumn key) pa pwm (nValue key) [] (nHeadComment key) (nTag val) []"
  consider (scalar) "nKind val = ScalarNode" | (mapping) "nKind val = MappingNode"
    | (empty) "nKind val = SequenceNode" "nContent val = []"
    | (scalars) "nKind val = SequenceNode" "nContent val \<noteq> []" "allScalars (nContent val)"
    | (mixed) "nKind val = SequenceNode" "nContent val \<noteq> []" "\<not> allScalars (nContent val)"
    using kinds by blast
  then show ?thesis
  proof cases
    case scalar
    let ?y = "YAMLNode (nColumn key) pa pwm (nValue key) (nValue val) (nHeadComment key) (nTag val) []"
    from k r scalar
    have "ParseChildren_loop m len (i + 2) rest (children @ [?y]) pa pwm = Inr ys"
      by (simp split: if_splits)
    moreover have "children_from m (key, val) ?y" by (simp add: children_from_def)
    ultimately show ?thesis by blast
  next
    case mapping
    from k r mapping obtain cs
      where pc: "ParseChildren m val (Anchor ?n) False = Inr cs"
        and l: "ParseChildren_loop m len (i + 2) rest (children @ [set_Children ?n cs]) pa pwm = Inr ys"
      by (auto simp: Let_def split: if_splits sum.splits)
    from pc have "children_from m (key, val) (set_Children ?n cs)"
      by (auto simp: children_from_def)
    with l show ?thesis by blast
  next
    case empty
    let ?y = "YAMLNode (nColumn key) pa pwm (nValue key) ''[]'' (nHeadComment key) (nTag val) []"
    from k r empty
    have "ParseChildren_loop m len (i + 2) rest (children @ [?y]) pa pwm = Inr ys"
      by (simp split: if_splits)
    moreover have "children_from m (key, val) ?y" by (simp add: children_from_def)
    ultimately show ?thesis by blast
  next
    case scalars
    from k r scalars obtain d
      where l: "ParseChildren_loop m len (i + 2) rest
          (children @ [YAMLNode (nColumn key) pa pwm (nValue key) d (nHeadComment key) (nTag val) []])
          pa pwm = Inr ys"
      by (auto split: if_splits sum.splits)
    moreover have "children_from m (key, val)
        (YAMLNode (nColumn key) pa pwm (nValue key) d (nHeadComment key) (nTag val) [])"
      by (simp add: children_from_def)
    ultimately show ?thesis by blast
  next
    case mixed
    from k r mixed obtain cs
      where pc: "ParseChildren m val (Anchor ?n) False = Inr cs"
        and l: "ParseChildren_loop m len (i + 2) rest (children @ [set_Children ?n cs]) pa pwm = Inr ys"
      by (auto simp: Let_def split: if_splits sum.splits)
    from pc have "children_from m (key, val) (set_Children ?n cs)"
      by (auto simp: children_from_def)
    with l show ?thesis by blast
  qed
qed

lemma ParseChildren_loop_children_from:
  "scalar_keys xs \<Longrightarrow> ParseChildren_loop m len i xs children pa pwm = Inr ys \<Longrightarrow>
   \<exists>new. ys = children @ new \<and> list_all2 (children_from m) (entries xs) new"
proof (induction xs arbitrary: i children rule: scalar_keys.induct)
  case 1
  then show ?case by simp
next
  case (2 c)
  then show ?case by (simp split: if_splits)
next
  case (3 key val rest)
  have k: "nKind key = ScalarNode" and sr: "scalar_keys rest" using 3(2) by simp_all
  note IH = 3(1)[OF sr]
  show ?case
  proof (cases "nKind val = ScalarNode \<or> nKind val = MappingNode \<or> nKind val = SequenceNode")
    case True
    from ParseChildren_loop_step_below[OF k 3(3) True]
    obtain y where y: "children_from m (key, val) y"
      and l: "ParseChildren_loop m len (i + 2) rest (children @ [y]) pa pwm = Inr ys"
      by blast
    from IH[OF l] obtain new where "ys = (children @ [y]) @ new"
      and "list_all2 (children_from m) (entries rest) new" by blast
    with y True show ?thesis by (intro exI[of _ "y # new"]) simp
  next
    case False
    with ParseChildren_loop_step[OF k 3(3)]
    have l: "ParseChildren_loop m len (i + 2) rest children pa pwm = Inr ys" by simp
    from IH[OF l] False show ?thesis by simp
  qed
qed

lemma children_from_flags:
  assumes "children_from m e y" and "scalar_keys (nContent (snd e))"
  shows "\<forall>c\<in>set (Children y). \<not> ParentWasMap c"
proof (cases "Children y = []")
  case True
  then show ?thesis by simp
next
  case False
  with assms(1) obtain a where pc: "ParseChildren m (snd e) a False = Inr (Children y)"
    by (auto simp: children_from_def)
  obtain k t v h c content where e: "snd e = Node k t v h c content" by (cases "snd e")
  with assms(2) have "scalar_keys content" by simp
  with pc e have "list_all2 (built_for False) (entries content) (Children y)"
    using ParseChildren_entries by metis
  then show ?thesis using flag_of_entries by blast
qed

lemma ParseChildren_children_flags:
  assumes "scalar_keys content" and "ParseChildren m (Node k t v h c content) pa pwm = Inr ys"
  shows "list_all2 (\<lambda>e y. scalar_keys (nContent (snd e)) \<longrightarrow> (\<forall>c\<in>set (Children y). \<not> ParentWasMap c))
           (entries content) ys"
proof -
  from assms have "list_all2 (children_from m) (entries content) ys"
    using ParseChildren_loop_children_from[of content m "length content" 0 "[]" pa pwm ys] by simp
  then show ?thesis
    by (rule list_all2_mono) (use children_from_flags in blast)
qed

lemma top_level_single_entry:
  assumes "nKind key = ScalarNode"
    and "nKind val = ScalarNode \<or> nKind val = MappingNode \<or> nKind val = SequenceNode"
    and "ParseNode m (Node DocumentNode dt dv dh dc [Node MappingNode mt mv mh mc [key, val]]) [] = Inr root"
  shows "\<exists>y. Children root = [y] \<and> Key y = nValue key \<and> \<not> ParentWasMap y
            \<and> (scalar_keys (nContent val) \<longrightarrow> (\<forall>c\<in>set (Children y). \<not> ParentWasMap c))"
proof -
  from assms(3) obtain cs where pc: "ParseChildren m (Node MappingNode mt mv mh mc [key, val]) [] False = Inr cs"
    and root: "root = YAMLNode 0 [] False [] [] [] [] cs"
    by (auto simp del: ParseChildren.simps split: sum.splits)
  have sk: "scalar_keys [key, val]" using assms(1) by simp
  have en: "entries [key, val] = [(key, val)]" using assms(2) by auto
  from ParseChildren_entries[OF sk pc] en obtain y where cs: "cs = [y]" and b: "built_for False (key, val) y"
    by (auto simp: list_all2_Cons1)
  from ParseChildren_children_flags[OF sk pc] en cs
  have "scalar_keys (nContent val) \<longrightarrow> (\<forall>c\<in>set (Children y). \<not> ParentWasMap c)"
    by simp
  with root cs b show ?thesis by (simp add: built_for_def)
qed

text \<open>
  C2, as the code has it. The unwrap is the branch \<open>len(n.Content) == 1\<close> of the
  loop: a container whose content is one node that is not a scalar (a sequence with
  a single mapping as its element) gets no node of its own for that element; the
  builder descends into the element with the flag \<open>ParentWasMap\<close> set, whatever the
  flag was, so also when such containers are nested. The nodes built for the
  entries of the element carry the flag. A top-level mapping with exactly one entry
  is not unwrapped, whatever its value is: one node is built for its key, with the
  flag unset. The nodes built for the entries of a value, one level below, have the
  flag unset again.
\<close>

theorem ParseChildren_unwraps_single_element:
  "(nKind child \<noteq> ScalarNode \<longrightarrow>
      ParseChildren m (Node k t v h c [child]) pa pwm = ParseChildren m child pa True)
   \<and> (scalar_keys content \<and> ParseChildren m (Node k' t' v' h' c' content) pa' True = Inr ys \<longrightarrow>
      (\<forall>y\<in>set ys. ParentWasMap y))
   \<and> (nKind key = ScalarNode \<and> nKind val = ScalarNode \<longrightarrow>
      ParseNode m (Node DocumentNode dt dv dh dc [Node MappingNode mt mv mh mc [key, val]]) [] =
        Inr (YAMLNode 0 [] False [] [] [] []
          [YAMLNode (nColumn key) [] False (nValue key) (nValue val) (nHeadComment key) (nTag val) []]))
   \<and> (nKind key' = ScalarNode
        \<and> (nKind val' = ScalarNode \<or> nKind val' = MappingNode \<or> nKind val' = SequenceNode)
        \<and> ParseNode m (Node DocumentNode dt' dv' dh' dc' [Node MappingNode mt' mv' mh' mc' [key', val']]) []
            = Inr root \<longrightarrow>
      (\<exists>y. Children root = [y] \<and> Key y = nValue key' \<and> \<not> ParentWasMap y
            \<and> (scalar_keys (nContent val') \<longrightarrow> (\<forall>c\<in>set (Children y). \<not> ParentWasMap c))))
   \<and> (scalar_keys content'' \<and> ParseChildren m (Node k'' t'' v'' h'' c'' content'') pa'' pwm'' = Inr ys'' \<longrightarrow>
      list_all2 (\<lambda>e y. scalar_keys (nContent (snd e)) \<longrightarrow> (\<forall>c\<in>set (Children y). \<not> ParentWasMap c))
        (entries content'') ys'')"
proof (intro conjI impI)
  assume "nKind child \<noteq> ScalarNode"
  then show "ParseChildren m (Node k t v h c [child]) pa pwm = ParseChildren m child pa True"
    by simp
next
  assume "scalar_keys content \<and> ParseChildren m (Node k' t' v' h' c' content) pa' True = Inr ys"
  then have "list_all2 (built_for True) (entries content) ys"
    using ParseChildren_entries by blast
  then show "\<forall>y\<in>set ys. ParentWasMap y" using flag_of_entries by blast
next
  assume "nKind key = ScalarNode \<and> nKind val = ScalarNode"
  then show "ParseNode m (Node DocumentNode dt dv dh dc [Node MappingNode mt mv mh mc [key, val]]) [] =
        Inr (YAMLNode 0 [] False [] [] [] []
          [YAMLNode (nColumn key) [] False (nValue key) (nValue val) (nHeadComment key) (nTag val) []])"
    by simp
next
  assume "nKind key' = ScalarNode
        \<and> (nKind val' = ScalarNode \<or> nKind val' = MappingNode \<or> nKind val' = SequenceNode)
        \<and> ParseNode m (Node DocumentNode dt' dv' dh' dc' [Node MappingNode mt' mv' mh' mc' [key', val']]) []
            = Inr root"
  then show "\<exists>y. Children root = [y] \<and> Key y = nValue key' \<and> \<not> ParentWasMap y
            \<and> (scalar_keys (nContent val') \<longrightarrow> (\<forall>c\<in>set (Children y). \<not> ParentWasMap c))"
    using top_level_single_entry by blast
next
  assume "scalar_keys content'' \<and> ParseChildren m (Node k'' t'' v'' h'' c'' content'') pa'' pwm'' = Inr ys''"
  then show "list_all2 (\<lambda>e y. scalar_keys (nContent (snd e)) \<longrightarrow> (\<forall>c\<in>set (Children y). \<not> ParentWasMap c))
        (entries content'') ys''"
    using ParseChildren_children_flags by blast
qed

text \<open>
  The theorem at the sequence \<open>[{b: 1}]\<close> (one mapping as its element, the key
  \<open>b\<close> in column 3), at the content of that mapping, at the document \<open>a: 1\<close> and
  at the document \<open>a: {b: 1}\<close>, whose top-level mapping has one entry with a
  mapping as its value.
\<close>

theorem ParseChildren_unwraps_single_element_witness:
  "ParseChildren example_marshal (Node SequenceNode ''!!seq'' [] [] 1
      [Node MappingNode ''!!map'' [] [] 3
         [Node ScalarNode ''!!str'' ''b'' [] 3 [], Node ScalarNode ''!!int'' ''1'' [] 6 []]]) ''-a'' False
   = Inr [YAMLNode 3 ''-a'' True ''b'' ''1'' [] ''!!int'' []]
   \<and> list_all ParentWasMap [YAMLNode 3 ''-a'' True ''b'' ''1'' [] ''!!int'' []]
   \<and> ParseNode example_marshal (Node DocumentNode [] [] [] 1 [Node MappingNode ''!!map'' [] [] 1
        [Node ScalarNode ''!!str'' ''a'' [] 1 [], Node ScalarNode ''!!int'' ''1'' [] 4 []]]) []
     = Inr (YAMLNode 0 [] False [] [] [] [] [YAMLNode 1 [] False ''a'' ''1'' [] ''!!int'' []])
   \<and> ParseNode example_marshal (Node DocumentNode [] [] [] 1 [Node MappingNode ''!!map'' [] [] 1
        [Node ScalarNode ''!!str'' ''a'' [] 1 [],
         Node MappingNode ''!!map'' [] [] 3
           [Node ScalarNode ''!!str'' ''b'' [] 3 [], Node ScalarNode ''!!int'' ''1'' [] 6 []]]]) []
     = Inr (YAMLNode 0 [] False [] [] [] []
         [YAMLNode 1 [] False ''a'' [] [] ''!!map'' [YAMLNode 3 ''-a'' False ''b'' ''1'' [] ''!!int'' []]])
   \<and> (\<exists>y. Children (YAMLNode 0 [] False [] [] [] []
         [YAMLNode 1 [] False ''a'' [] [] ''!!map'' [YAMLNode 3 ''-a'' False ''b'' ''1'' [] ''!!int'' []]])
          = [y] \<and> Key y = ''a'' \<and> \<not> ParentWasMap y \<and> list_all (\<lambda>c. \<not> ParentWasMap c) (Children y))
   \<and> list_all2 (\<lambda>e y. scalar_keys (nContent (snd e)) \<longrightarrow> (\<forall>c\<in>set (Children y). \<not> ParentWasMap c))
        (entries [Node ScalarNode ''!!str'' ''a'' [] 1 [],
           Node MappingNode ''!!map'' [] [] 3
             [Node ScalarNode ''!!str'' ''b'' [] 3 [], Node ScalarNode ''!!int'' ''1'' [] 6 []]])
        [YAMLNode 1 [] False ''a'' [] [] ''!!map'' [YAMLNode 3 ''-a'' False ''b'' ''1'' [] ''!!int'' []]]"
proof -
  let ?b = "[Node ScalarNode ''!!str'' ''b'' [] 3 [], Node ScalarNode ''!!int'' ''1'' [] 6 []]"
  let ?mb = "Node MappingNode ''!!map'' [] [] 3 ?b"
  let ?ka = "Node ScalarNode ''!!str'' ''a'' [] 1 []"
  let ?one = "Node ScalarNode ''!!int'' ''1'' [] 4 []"
  let ?yb = "YAMLNode 3 ''-a'' True ''b'' ''1'' [] ''!!int'' []"
  let ?ya = "YAMLNode 1 [] False ''a'' [] [] ''!!map'' [YAMLNode 3 ''-a'' False ''b'' ''1'' [] ''!!int'' []]"
  let ?root = "YAMLNode 0 [] False [] [] [] [] [?ya]"
  note ev = Anchor_def ToLower_def lower_char_def
  have p1: "ParseChildren example_marshal ?mb ''-a'' True = Inr [?yb]" by simp
  have p2: "ParseNode example_marshal (Node DocumentNode [] [] [] 1 [Node MappingNode ''!!map'' [] [] 1
        [?ka, ?mb]]) [] = Inr ?root"
    by (simp add: ev)
  have p3: "ParseChildren example_marshal (Node MappingNode ''!!map'' [] [] 1 [?ka, ?mb]) [] False
      = Inr [?ya]"
    by (simp add: ev)
  from ParseChildren_unwraps_single_element[of
      ?mb example_marshal SequenceNode "''!!seq''" "[]" "[]" 1 "''-a''" False
      ?b MappingNode "''!!map''" "[]" "[]" 3 "''-a''" "[?yb]"
      ?ka ?one "[]" "[]" "[]" 1 "''!!map''" "[]" "[]" 1
      ?ka ?mb "[]" "[]" "[]" 1 "''!!map''" "[]" "[]" 1 ?root
      "[?ka, ?mb]" MappingNode "''!!map''" "[]" "[]" 1 "[]" False "[?ya]"]
    p1 p2 p3
  show ?thesis by (simp add: list_all_iff)
qed

text \<open>
  C2 as the specification states it fails. The document \<open>a: 1\<close> has a
  top-level mapping with exactly one entry: a node is built for \<open>a\<close>, with the flag
  unset. In \<open>a: [[{b: {c: 1}}]]\<close> two nested single-element sequences are both
  unwrapped, \<open>b\<close> carries the flag and \<open>c\<close>, built below it, does not.
\<close>

theorem top_level_single_entry_not_unwrapped:
  "ParseNode example_marshal (Node DocumentNode [] [] [] 1 [Node MappingNode ''!!map'' [] [] 1
      [Node ScalarNode ''!!str'' ''a'' [] 1 [], Node ScalarNode ''!!int'' ''1'' [] 4 []]]) []
   = Inr (YAMLNode 0 [] False [] [] [] [] [YAMLNode 1 [] False ''a'' ''1'' [] ''!!int'' []])
   \<and> ParseNode example_marshal (Node DocumentNode [] [] [] 1 [Node MappingNode ''!!map'' [] [] 1
      [Node ScalarNode ''!!str'' ''a'' [] 1 [],
       Node SequenceNode ''!!seq'' [] [] 4
         [Node SequenceNode ''!!seq'' [] [] 5
           [Node MappingNode ''!!map'' [] [] 6
             [Node ScalarNode ''!!str'' ''b'' [] 7 [],
              Node MappingNode ''!!map'' [] [] 10
                [Node ScalarNode ''!!str'' ''c'' [] 11 [],
                 Node ScalarNode ''!!int'' ''1'' [] 14 []]]]]]]) []
   = Inr (YAMLNode 0 [] False [] [] [] []
       [YAMLNode 1 [] False ''a'' [] [] ''!!seq''
         [YAMLNode 7 ''-a'' True ''b'' [] [] ''!!map''
           [YAMLNode 11 ''-a-b'' False ''c'' ''1'' [] ''!!int'' []]]])"
  by (simp add: allScalars_def Anchor_def ToLower_def lower_char_def)




text \<open>
  C4, as the code has it. For a key whose value is a non-empty sequence with an
  element that is not a scalar, the loop appends one node for the key, without a
  default, whose children are what \<open>ParseChildren\<close> returns for the sequence under
  the anchor of the key; \<open>ParseChildren\<close> treats the content of a sequence as it
  treats the content of a mapping. The kind \<open>array<map>\<close> is never derived from the
  structure: a node without a \<open>type:\<close> override never has it, and a node has it when
  its description carries the override \<open>type: array<map>\<close>.
\<close>

theorem sequence_of_maps_is_container:
  "(nKind key = ScalarNode \<and> nKind val = SequenceNode \<and> nContent val \<noteq> []
      \<and> \<not> allScalars (nContent val) \<and> i < len \<longrightarrow>
     ParseChildren_loop m len i (key # val # rest) children pa pwm =
       (case ParseChildren m val (pa @ ''-'' @ ToLower (nValue key)) False of
          Inl e \<Rightarrow> Inl e
        | Inr cs \<Rightarrow>
            ParseChildren_loop m len (i + 2) rest
              (children @ [YAMLNode (nColumn key) pa pwm (nValue key) [] (nHeadComment key) (nTag val) cs])
              pa pwm))
   \<and> ParseChildren m (Node SequenceNode t v h c content) pa' pwm' =
       ParseChildren m (Node MappingNode t v h c content) pa' pwm'
   \<and> (typeFromDescription (Description y) = None \<longrightarrow> Kind y \<noteq> ''array<map>'')
   \<and> (typeFromDescription (Description y') = Some ''array<map>'' \<longrightarrow> Kind y' = ''array<map>'')"
  by (auto simp: Kind_def Let_def Anchor_def split: sum.splits)

text \<open>
  The theorem at the pair \<open>a: [{b: 1}]\<close>, at the node built for \<open>b\<close> and at a node
  whose comment is \<open># type: array<map>\<close>.
\<close>

theorem sequence_of_maps_is_container_witness:
  "ParseChildren_loop example_marshal 2 0
      [Node ScalarNode ''!!str'' ''a'' [] 1 [],
       Node SequenceNode ''!!seq'' [] [] 1
         [Node MappingNode ''!!map'' [] [] 3
            [Node ScalarNode ''!!str'' ''b'' [] 3 [], Node ScalarNode ''!!int'' ''1'' [] 6 []]]]
      [] [] False
   = Inr [YAMLNode 1 [] False ''a'' [] [] ''!!seq'' [YAMLNode 3 ''-a'' True ''b'' ''1'' [] ''!!int'' []]]
   \<and> Kind (YAMLNode 3 ''-a'' True ''b'' ''1'' [] ''!!int'' []) \<noteq> ''array<map>''
   \<and> Kind (YAMLNode 1 [] False ''a'' [] ''# type: array<map>'' ''!!seq'' []) = ''array<map>''"
  using sequence_of_maps_is_container[of
      "Node ScalarNode ''!!str'' ''a'' [] 1 []"
      "Node SequenceNode ''!!seq'' [] [] 1
         [Node MappingNode ''!!map'' [] [] 3
            [Node ScalarNode ''!!str'' ''b'' [] 3 [], Node ScalarNode ''!!int'' ''1'' [] 6 []]]"
      0 2 example_marshal "[]" "[]" "[]" False "[]" "[]" "[]" 0 "[]" "[]" False
      "YAMLNode 3 ''-a'' True ''b'' ''1'' [] ''!!int'' []"
      "YAMLNode 1 [] False ''a'' [] ''# type: array<map>'' ''!!seq'' []"]
  by (simp add: allScalars_def ToLower_def lower_char_def typeFromDescription_def
        FindStringSubmatch1_def)

text \<open>
  C4 as the specification states it fails at \<open>a: [{b: 1}]\<close>: the child
  \<open>b\<close> has no \<open>type:\<close> override and its kind is \<open>integer\<close>; the kind of \<open>a\<close> itself is
  the unknown-kind text for the tag of the sequence.
\<close>

theorem child_of_sequence_of_maps_is_not_array_of_map:
  "ParseNode example_marshal (Node DocumentNode [] [] [] 1 [Node MappingNode ''!!map'' [] [] 1
     [Node ScalarNode ''!!str'' ''a'' [] 1 [],
      Node SequenceNode ''!!seq'' [] [] 1
        [Node MappingNode ''!!map'' [] [] 3
           [Node ScalarNode ''!!str'' ''b'' [] 3 [], Node ScalarNode ''!!int'' ''1'' [] 6 []]]]]) []
   = Inr (YAMLNode 0 [] False [] [] [] []
       [YAMLNode 1 [] False ''a'' [] [] ''!!seq'' [YAMLNode 3 ''-a'' True ''b'' ''1'' [] ''!!int'' []]])
   \<and> typeFromDescription (Description (YAMLNode 3 ''-a'' True ''b'' ''1'' [] ''!!int'' [])) = None
   \<and> Kind (YAMLNode 3 ''-a'' True ''b'' ''1'' [] ''!!int'' []) = ''integer''
   \<and> Kind (YAMLNode 1 [] False ''a'' [] [] ''!!seq'' [YAMLNode 3 ''-a'' True ''b'' ''1'' [] ''!!int'' []])
       = ''unknown kind '' @ [CHR 0x27] @ ''!!seq'' @ [CHR 0x27]"
  by (simp add: allScalars_def Anchor_def ToLower_def lower_char_def Kind_def typeFromDescription_def
        FindStringSubmatch1_def TrimLeft_def)

section \<open>Properties of the kind and the default\<close>

lemma after_literal_None: "after_literal lit s = None \<longleftrightarrow> \<not> has_literal lit s"
  by (induction s) (auto split: option.splits)

lemma after_literal_last:
  assumes "lit \<noteq> []" and "\<not> has_literal lit (tl (lit @ v))"
  shows "after_literal lit (a @ lit @ v) = Some v"
proof (induction a)
  case Nil
  from assms(1) obtain c l where lit: "lit = c # l" by (cases lit) auto
  with assms(2) have "after_literal lit (l @ v) = None" by (simp add: after_literal_None)
  then show ?case using lit by simp
next
  case (Cons x a)
  then show ?case by simp
qed

text \<open>Neither literal overlaps itself: an occurrence that starts inside one ends in \<open>v\<close>.\<close>

lemma type_literal_border:
  "has_literal ''type: '' (tl (''type: '' @ v)) \<Longrightarrow> has_literal ''type: '' v"
  by simp

lemma default_literal_border:
  "has_literal ''default: '' (tl (''default: '' @ v)) \<Longrightarrow> has_literal ''default: '' v"
  by simp

lemma first_match_first:
  "\<forall>p\<in>set pre. after_literal lit p = None \<Longrightarrow>
   first_match lit (pre @ l # post) =
     (case after_literal lit l of Some g \<Rightarrow> Some g | None \<Rightarrow> first_match lit post)"
  by (induction pre) auto

lemma FindStringSubmatch1_first_line:
  assumes "Split_lines s = pre @ (a @ lit @ v) # post"
    and "\<forall>p\<in>set pre. \<not> has_literal lit p" and "lit \<noteq> []"
    and "\<not> has_literal lit (tl (lit @ v))"
  shows "FindStringSubmatch1 lit s = Some v"
  using assms
  by (simp add: FindStringSubmatch1_def first_match_first after_literal_None after_literal_last)

text \<open>
  C1, as the code has it. The overrides are recognised line by line: a line of the
  comment block that holds \<open>type: \<close> (after any text, such as the comment marker)
  gives the kind, a line that holds \<open>default: \<close> gives the default, and the value
  is the rest of the line. When several such lines occur in the block it is the
  first of them that determines the kind and the default, not the last.
\<close>

theorem first_override_line_wins:
  "(Split_lines (Description y) = pre @ (a @ ''type: '' @ v) # post
      \<and> (\<forall>p\<in>set pre. \<not> has_literal ''type: '' p) \<and> \<not> has_literal ''type: '' v
      \<longrightarrow> Kind y = v)
   \<and> (Split_lines (Description y') = pre' @ (a' @ ''default: '' @ v') # post'
      \<and> (\<forall>p\<in>set pre'. \<not> has_literal ''default: '' p) \<and> \<not> has_literal ''default: '' v'
      \<longrightarrow> FormattedDefault y' = v')"
proof (intro conjI impI)
  assume h: "Split_lines (Description y) = pre @ (a @ ''type: '' @ v) # post
      \<and> (\<forall>p\<in>set pre. \<not> has_literal ''type: '' p) \<and> \<not> has_literal ''type: '' v"
  then have "\<not> has_literal ''type: '' (tl (''type: '' @ v))"
    using type_literal_border by blast
  with h have "typeFromDescription (Description y) = Some v"
    unfolding typeFromDescription_def
    by (intro FindStringSubmatch1_first_line[of _ pre a _ _ post]) auto
  then show "Kind y = v" by (simp add: Kind_def)
next
  assume h: "Split_lines (Description y') = pre' @ (a' @ ''default: '' @ v') # post'
      \<and> (\<forall>p\<in>set pre'. \<not> has_literal ''default: '' p) \<and> \<not> has_literal ''default: '' v'"
  then have "\<not> has_literal ''default: '' (tl (''default: '' @ v'))"
    using default_literal_border by blast
  with h have "defaultFromDescription (Description y') = Some v'"
    unfolding defaultFromDescription_def
    by (intro FindStringSubmatch1_first_line[of _ pre' a' _ _ post']) auto
  then show "FormattedDefault y' = v'" by (simp add: FormattedDefault_def)
qed

text \<open>
  The theorem at the comment block \<open># the setting\<close>, \<open># type: a\<close>, \<open># type: b\<close>
  and at the block \<open># the setting\<close>, \<open># default: 1\<close>, \<open># default: 2\<close>.
\<close>

theorem first_override_line_wins_witness:
  "Kind (YAMLNode 1 [] False ''k'' ''x''
           (''# the setting'' @ [NL] @ ''# type: a'' @ [NL] @ ''# type: b'') ''!!str'' []) = ''a''
   \<and> FormattedDefault (YAMLNode 1 [] False ''k'' ''x''
           (''# the setting'' @ [NL] @ ''# default: 1'' @ [NL] @ ''# default: 2'') ''!!str'' []) = ''1''"
  using first_override_line_wins[of
      "YAMLNode 1 [] False ''k'' ''x''
         (''# the setting'' @ [NL] @ ''# type: a'' @ [NL] @ ''# type: b'') ''!!str'' []"
      "[''# the setting'']" "''# ''" "''a''" "[''# type: b'']"
      "YAMLNode 1 [] False ''k'' ''x''
         (''# the setting'' @ [NL] @ ''# default: 1'' @ [NL] @ ''# default: 2'') ''!!str'' []"
      "[''# the setting'']" "''# ''" "''1''" "[''# default: 2'']"]
  by simp

text \<open>
  C1 as the specification states it fails: with the two override lines
  \<open># type: a\<close> and \<open># type: b\<close> the kind is \<open>a\<close>, the value of the first line, and
  with \<open># default: 1\<close> and \<open># default: 2\<close> the default is \<open>1\<close>.
\<close>

theorem last_override_line_does_not_win:
  "Kind (YAMLNode 1 [] False ''k'' ''x'' (''# type: a'' @ [NL] @ ''# type: b'') ''!!str'' []) = ''a''
   \<and> Kind (YAMLNode 1 [] False ''k'' ''x'' (''# type: a'' @ [NL] @ ''# type: b'') ''!!str'' []) \<noteq> ''b''
   \<and> FormattedDefault
        (YAMLNode 1 [] False ''k'' ''x'' (''# default: 1'' @ [NL] @ ''# default: 2'') ''!!str'' []) = ''1''
   \<and> FormattedDefault
        (YAMLNode 1 [] False ''k'' ''x'' (''# default: 1'' @ [NL] @ ''# default: 2'') ''!!str'' []) \<noteq> ''2''"
  by (simp add: Kind_def FormattedDefault_def typeFromDescription_def defaultFromDescription_def
        FindStringSubmatch1_def)

lemma Split_lines_length: "length (Split_lines s) = Suc (count_list s NL)"
  by (induction s) (auto split: list.splits)

text \<open>
  C7, as the code has it. Take a node without a \<open>default:\<close> override whose kind is
  neither \<open>array<map>\<close> nor \<open>map\<close> and whose default is not empty, and on which the
  template succeeds. The lines of the default are counted as the pieces between
  its newlines, one more than there are newlines. With more than one newline (a
  default of four lines, and also one of two lines that ends in a newline) the
  fragment shows the kind alone. With at most one newline the fragment shows the
  default after the kind, trimmed of the white space around it, unless the
  trimmed text is empty: then it shows the kind alone as well.
\<close>

theorem default_shown_up_to_one_newline:
  assumes "defaultFromDescription (Description y) = None"
    and "Kind y \<noteq> ''array<map>''" and "Kind y \<noteq> ''map''" and "Default y \<noteq> []"
    and "LeadingIndent y = Inr leading" and "FormattedDescription y = Inr d"
  shows "length (Split_lines (Default y)) = Suc (count_list (Default y) NL)
   \<and> (1 < count_list (Default y) NL \<or> TrimSpace (Default y) = [] \<longrightarrow>
        FormattedDefault y = []
        \<and> Execute y = Inr (header y leading @ '' ('' @ [CHR 0x60] @ Kind y @ [CHR 0x60] @ '')''
                           @ description_part d))
   \<and> (count_list (Default y) NL \<le> 1 \<and> TrimSpace (Default y) \<noteq> [] \<longrightarrow>
        FormattedDefault y = TrimSpace (Default y)
        \<and> Execute y = Inr (header y leading @ '' ('' @ [CHR 0x60] @ Kind y @ '': ''
                           @ TrimSpace (Default y) @ [CHR 0x60] @ '')'' @ description_part d))"
proof -
  have fd: "FormattedDefault y =
      (if 1 < count_list (Default y) NL then [] else TrimSpace (Default y))"
    using assms(1,2,4) by (simp add: FormattedDefault_def Split_lines_length)
  have ex: "Execute y =
      Inr (header y leading @ '' ('' @ [CHR 0x60] @ Kind y
           @ (if FormattedDefault y \<noteq> [] then '': '' @ FormattedDefault y else [])
           @ [CHR 0x60] @ '')'' @ description_part d)"
    using assms(3,5,6) by (simp add: Execute_def header_def description_part_def)
  show ?thesis
  proof (intro conjI impI)
    show "length (Split_lines (Default y)) = Suc (count_list (Default y) NL)"
      by (rule Split_lines_length)
  next
    assume h: "1 < count_list (Default y) NL \<or> TrimSpace (Default y) = []"
    then show "FormattedDefault y = []" using fd by auto
    then show "Execute y = Inr (header y leading @ '' ('' @ [CHR 0x60] @ Kind y @ [CHR 0x60] @ '')''
                           @ description_part d)"
      using ex by simp
  next
    assume h: "count_list (Default y) NL \<le> 1 \<and> TrimSpace (Default y) \<noteq> []"
    then show f: "FormattedDefault y = TrimSpace (Default y)" using fd by auto
    show "Execute y = Inr (header y leading @ '' ('' @ [CHR 0x60] @ Kind y @ '': ''
                           @ TrimSpace (Default y) @ [CHR 0x60] @ '')'' @ description_part d)"
      using ex f h by simp
  qed
qed

text \<open>
  The theorem at a key \<open>k\<close> in column 1 with the comment \<open># the setting\<close>: at a
  default of four lines, \<open>a\<close>, \<open>b\<close>, \<open>c\<close>, \<open>d\<close>, and at the default of two lines
  \<open> a\<close>, \<open>b  \<close>.
\<close>

theorem default_shown_up_to_one_newline_witness:
  "Execute (YAMLNode 1 [] False ''k'' (''a'' @ [NL] @ ''b'' @ [NL] @ ''c'' @ [NL] @ ''d'')
        ''# the setting'' ''!!str'' [])
     = Inr (''- '' @ [CHR 0x60] @ ''k'' @ [CHR 0x60] @ '' ((#v-k)) ('' @ [CHR 0x60] @ ''string''
            @ [CHR 0x60] @ '') - the setting'')
   \<and> Execute (YAMLNode 1 [] False ''k'' ('' a'' @ [NL] @ ''b  '') ''# the setting'' ''!!str'' [])
     = Inr (''- '' @ [CHR 0x60] @ ''k'' @ [CHR 0x60] @ '' ((#v-k)) ('' @ [CHR 0x60] @ ''string: a''
            @ [NL] @ ''b'' @ [CHR 0x60] @ '') - the setting'')"
proof -
  let ?y4 = "YAMLNode 1 [] False ''k'' (''a'' @ [NL] @ ''b'' @ [NL] @ ''c'' @ [NL] @ ''d'')
        ''# the setting'' ''!!str'' []"
  let ?y2 = "YAMLNode 1 [] False ''k'' ('' a'' @ [NL] @ ''b  '') ''# the setting'' ''!!str'' []"
  have d: "defaultFromDescription ''# the setting'' = None"
    by (simp add: defaultFromDescription_def FindStringSubmatch1_def)
  have k: "Kind ?y4 = ''string''" "Kind ?y2 = ''string''"
    by (simp_all add: Kind_def typeFromDescription_def FindStringSubmatch1_def TrimLeft_def)
  have li: "LeadingIndent ?y4 = Inr []" "LeadingIndent ?y2 = Inr []"
    by (simp_all add: LeadingIndent_def Repeat_def wrap_int_def)
  have de: "FormattedDescription ?y4 = Inr ''the setting''"
    "FormattedDescription ?y2 = Inr ''the setting''"
    by (simp_all add: FormattedDescription_def blank_def blanks_then_hash_def HasPrefix_def
          TrimSuffix_def suffix_to_prefix)
  have t: "TrimSpace ('' a'' @ [NL] @ ''b  '') = ''a'' @ [NL] @ ''b''"
    by (simp add: TrimSpace_def space_runes_def)
  from default_shown_up_to_one_newline[of ?y4 "[]" "''the setting''"]
       default_shown_up_to_one_newline[of ?y2 "[]" "''the setting''"] d k li de t
  show ?thesis
    by (simp add: header_def description_part_def Anchor_def ToLower_def lower_char_def)
qed

text \<open>
  C7 as the specification states it fails: the default of exactly two lines
  \<open>a\<close>, \<open>b\<close>, each ended by a newline, is split into three pieces and is not shown;
  a default of two lines of blanks is trimmed to nothing and is not shown either.
\<close>

theorem two_line_default_not_shown:
  "FormattedDefault (YAMLNode 1 [] False ''k'' (''a'' @ [NL] @ ''b'' @ [NL]) [] ''!!str'' []) = []
   \<and> Execute (YAMLNode 1 [] False ''k'' (''a'' @ [NL] @ ''b'' @ [NL]) [] ''!!str'' [])
       = Inr (''- '' @ [CHR 0x60] @ ''k'' @ [CHR 0x60] @ '' ((#v-k)) ('' @ [CHR 0x60] @ ''string''
              @ [CHR 0x60] @ '')'')
   \<and> Execute (YAMLNode 1 [] False ''k'' (''  '' @ [NL] @ ''  '') [] ''!!str'' [])
       = Inr (''- '' @ [CHR 0x60] @ ''k'' @ [CHR 0x60] @ '' ((#v-k)) ('' @ [CHR 0x60] @ ''string''
              @ [CHR 0x60] @ '')'')"
  by (simp add: Execute_def LeadingIndent_def Repeat_def wrap_int_def FormattedDescription_def
        TrimSuffix_def suffix_to_prefix Anchor_def ToLower_def lower_char_def Kind_def
        typeFromDescription_def FindStringSubmatch1_def TrimLeft_def FormattedDefault_def
        defaultFromDescription_def TrimSpace_def space_runes_def)

section \<open>Properties of the rendered description\<close>

lemma concat_replicate_space: "concat (replicate k '' '') = replicate k (CHR '' '')"
  by (induction k) auto

lemma Repeat_space: "0 \<le> n \<Longrightarrow> Repeat '' '' n = Inr (replicate (nat n) (CHR '' ''))"
  by (simp add: Repeat_def concat_replicate_space)

lemma kept_lines_Nil [simp]: "kept_lines i [] = []"
  by (simp add: kept_lines_def)

lemma kept_lines_Cons:
  "kept_lines i (l # ls) =
     (if is_override_line l then kept_lines (Suc i) ls else (i, l) # kept_lines (Suc i) ls)"
  by (simp add: kept_lines_def)

lemma FormattedDescription_loop_char:
  "(i = 0 \<longrightarrow> acc = []) \<Longrightarrow>
   FormattedDescription_loop y i ls acc =
     (if description_indent y < 0 \<and> needs_indent (kept_lines i ls) then Inl NegativeRepeatCount
      else Inr (acc @ concat (map (\<lambda>e. render_line (nat (description_indent y)) e @ [NL]) (kept_lines i ls))))"
proof (induction ls arbitrary: i acc)
  case Nil
  then show ?case by (simp add: needs_indent_def)
next
  case (Cons l ls)
  show ?case
  proof (cases "is_override_line l")
    case True
    then have "FormattedDescription_loop y i (l # ls) acc = FormattedDescription_loop y (Suc i) ls acc"
      by (simp add: is_override_line_def)
    then show ?thesis using Cons.IH[of "Suc i" acc] True by (simp add: kept_lines_Cons)
  next
    case False
    note no = False
    show ?thesis
    proof (cases "i = 0")
      case True
      then have "FormattedDescription_loop y i (l # ls) acc = FormattedDescription_loop y (Suc i) ls (l @ [NL])"
        using no by (simp add: is_override_line_def)
      then show ?thesis using Cons.IH[of "Suc i" "l @ [NL]"] no True Cons.prems
        by (simp add: kept_lines_Cons render_line_def needs_indent_def)
    next
      case False
      show ?thesis
      proof (cases "l = []")
        case True
        then have "FormattedDescription_loop y i (l # ls) acc = FormattedDescription_loop y (Suc i) ls (acc @ [NL])"
          using no False by (simp add: is_override_line_def)
        then show ?thesis using Cons.IH[of "Suc i" "acc @ [NL]"] no True False
          by (simp add: kept_lines_Cons render_line_def needs_indent_def)
      next
        case nonblank: False
        show ?thesis
        proof (cases "description_indent y < 0")
          case True
          then have "FormattedDescription_loop y i (l # ls) acc = Inl NegativeRepeatCount"
            using no False nonblank
            by (simp add: is_override_line_def description_indent_def Repeat_def)
          then show ?thesis using True no False nonblank
            by (simp add: kept_lines_Cons needs_indent_def)
        next
          case nn: False
          then have "FormattedDescription_loop y i (l # ls) acc =
              FormattedDescription_loop y (Suc i) ls (acc @ replicate (nat (description_indent y)) (CHR '' '') @ l @ [NL])"
            using no False nonblank Repeat_space[of "description_indent y"]
            by (simp add: is_override_line_def description_indent_def)
          then show ?thesis
            using Cons.IH[of "Suc i" "acc @ replicate (nat (description_indent y)) (CHR '' '') @ l @ [NL]"]
              no False nonblank nn
            by (simp add: kept_lines_Cons render_line_def needs_indent_def)
        qed
      qed
    qed
  qed
qed

lemma concat_NL_Join:
  "xs \<noteq> [] \<Longrightarrow> concat (map (\<lambda>x. x @ [NL]) xs) = Join xs [NL] @ [NL]"
  by (induction xs "[NL]" rule: Join.induct) auto

lemma TrimSuffix_concat_NL:
  "TrimSuffix (concat (map (\<lambda>x. x @ [NL]) xs)) [NL] = Join xs [NL]"
proof (cases "xs = []")
  case True
  then show ?thesis by (simp add: TrimSuffix_def)
next
  case False
  then show ?thesis by (simp add: concat_NL_Join TrimSuffix_def)
qed

lemma TrimSuffix_concat_map_NL:
  "TrimSuffix (concat (map (\<lambda>e. f e @ [NL]) K)) [NL] = Join (map f K) [NL]"
proof -
  have "map (\<lambda>e. f e @ [NL]) K = map (\<lambda>x. x @ [NL]) (map f K)" by simp
  then show ?thesis by (simp only: TrimSuffix_concat_NL)
qed

lemma FormattedDescription_char:
  "FormattedDescription y =
     (let K = kept_lines 0 (Split_lines (commentPrefix_delete (Description y))) in
      if description_indent y < 0 \<and> needs_indent K then Inl NegativeRepeatCount
      else Inr (Join (map (render_line (nat (description_indent y))) K) [NL]))"
  using FormattedDescription_loop_char[of 0 "[]" y "Split_lines (commentPrefix_delete (Description y))"]
  by (simp add: FormattedDescription_def Let_def TrimSuffix_concat_map_NL)


lemma Split_lines_not_Nil [simp]: "Split_lines s \<noteq> []"
  by (induction s) (auto split: list.splits)

lemma Split_lines_no_NL: "l \<in> set (Split_lines s) \<Longrightarrow> NL \<notin> set l"
proof (induction s arbitrary: l)
  case Nil
  then show ?case by simp
next
  case (Cons c cs)
  show ?case
  proof (cases "c = NL")
    case True
    with Cons show ?thesis by auto
  next
    case False
    obtain x xs where sp: "Split_lines cs = x # xs"
      using Split_lines_not_Nil[of cs] by (cases "Split_lines cs") auto
    with Cons.prems False have "l = c # x \<or> l \<in> set xs" by auto
    then show ?thesis using Cons.IH[of x] Cons.IH[of l] sp False by auto
  qed
qed

lemma Split_lines_single: "NL \<notin> set x \<Longrightarrow> Split_lines x = [x]"
  by (induction x) auto

lemma Split_lines_append_NL:
  "NL \<notin> set x \<Longrightarrow> Split_lines (x @ NL # rest) = x # Split_lines rest"
  by (induction x) auto

lemma Split_lines_Join:
  "xs \<noteq> [] \<Longrightarrow> \<forall>x\<in>set xs. NL \<notin> set x \<Longrightarrow> Split_lines (Join xs [NL]) = xs"
  by (induction xs "[NL]" rule: Join.induct) (auto simp: Split_lines_single Split_lines_append_NL)

lemma kept_lines_sound:
  assumes "e \<in> set (kept_lines i ls)"
  shows "snd e \<in> set ls \<and> \<not> is_override_line (snd e)"
proof -
  from assms have e: "e \<in> set (enumerate i ls)" and no: "\<not> is_override_line (snd e)"
    by (simp_all add: kept_lines_def)
  from e have "snd e \<in> set (map snd (enumerate i ls))" by (simp only: set_map) (rule imageI)
  with no show ?thesis by simp
qed

lemma render_line_not_override:
  assumes "\<not> is_override_line (snd e)"
  shows "\<not> is_override_line (render_line n e)"
proof (cases n)
  case 0
  with assms show ?thesis by (simp add: render_line_def is_override_line_def HasPrefix_def)
next
  case (Suc k)
  with assms show ?thesis by (simp add: render_line_def is_override_line_def HasPrefix_def)
qed

lemma render_line_no_NL: "NL \<notin> set (snd e) \<Longrightarrow> NL \<notin> set (render_line n e)"
  by (simp add: render_line_def)

lemma rendered_lines_not_override:
  assumes "FormattedDescription y = Inr d" and "l \<in> set (Split_lines d)"
  shows "\<not> is_override_line l"
proof -
  let ?K = "kept_lines 0 (Split_lines (commentPrefix_delete (Description y)))"
  let ?R = "map (render_line (nat (description_indent y))) ?K"
  from assms(1) have d: "d = Join ?R [NL]"
    by (simp add: FormattedDescription_char Let_def split: if_splits)
  show ?thesis
  proof (cases "?K = []")
    case True
    with d assms(2) show ?thesis by (simp add: is_override_line_def HasPrefix_def)
  next
    case False
    have "\<forall>x\<in>set ?R. NL \<notin> set x"
      using kept_lines_sound Split_lines_no_NL render_line_no_NL by fastforce
    with False d have "Split_lines d = ?R" by (simp add: Split_lines_Join)
    with assms(2) obtain e where "e \<in> set ?K" and "l = render_line (nat (description_indent y)) e"
      by auto
    then show ?thesis using kept_lines_sound render_line_not_override by blast
  qed
qed

lemma wrap_int_in_range: "- (2 ^ 63) \<le> x \<Longrightarrow> x < 2 ^ 63 \<Longrightarrow> wrap_int x = x"
  by (simp add: wrap_int_def)

lemma unwrapped_entries_flagged:
  assumes "nKind child \<noteq> ScalarNode" and "scalar_keys (nContent child)"
    and "ParseChildren m (Node k t v h c [child]) pa pwm = Inr ys"
  shows "\<forall>y\<in>set ys. ParentWasMap y"
proof -
  obtain ck ct cv ch cc content where child: "child = Node ck ct cv ch cc content"
    by (cases child)
  from assms(1,3) have "ParseChildren m child pa True = Inr ys" by simp
  with child assms(2) have "list_all2 (built_for True) (entries content) ys"
    using ParseChildren_entries by simp
  then show ?thesis using flag_of_entries by blast
qed

lemma top_level_entries_not_flagged:
  assumes "scalar_keys content"
    and "ParseNode m (Node DocumentNode dt dv dh dc [Node MappingNode mt mv mh mc content]) [] = Inr root"
  shows "\<forall>y\<in>set (Children root). \<not> ParentWasMap y"
proof -
  from assms(2) obtain cs where pc: "ParseChildren m (Node MappingNode mt mv mh mc content) [] False = Inr cs"
    and root: "root = YAMLNode 0 [] False [] [] [] [] cs"
    by (auto simp del: ParseChildren.simps split: sum.splits)
  from ParseChildren_entries[OF assms(1) pc] have "\<forall>y\<in>set cs. ParentWasMap y = False"
    by (rule flag_of_entries)
  with root show ?thesis by simp
qed

text \<open>
  C3, as the code has it. The override lines are dropped; of the lines kept, the
  one at index 0 is emitted as it is, a blank line as a bare newline, and every
  other line after \<open>description_indent\<close> spaces, which is \<open>Indent + 1\<close> (computed on
  Go's \<open>int\<close>), and \<open>Indent\<close> exactly when the flag \<open>ParentWasMap\<close> is set; the lines
  are joined by newlines, without a newline at the end. With a negative
  indentation and a line to indent, \<open>strings.Repeat\<close> panics. The builder sets the
  flag for the entries of the single element of a sequence; the entries of the
  top-level mapping and of a mapping that is the value of a key have it unset.
\<close>

theorem description_lines_reindented:
  "description_indent y = (if ParentWasMap y then Indent y else wrap_int (Indent y + 1))
   \<and> (- (2 ^ 63) \<le> x \<and> x < 2 ^ 63 \<longrightarrow> wrap_int x = x)
   \<and> FormattedDescription y =
       (if description_indent y < 0
           \<and> needs_indent (kept_lines 0 (Split_lines (commentPrefix_delete (Description y))))
        then Inl NegativeRepeatCount
        else Inr (Join (map (render_line (nat (description_indent y)))
                         (kept_lines 0 (Split_lines (commentPrefix_delete (Description y))))) [NL]))
   \<and> render_line n (0, l) = l
   \<and> render_line n (Suc i, []) = []
   \<and> (l \<noteq> [] \<longrightarrow> render_line n (Suc i, l) = replicate n (CHR '' '') @ l)
   \<and> (nKind child \<noteq> ScalarNode \<and> scalar_keys (nContent child)
        \<and> ParseChildren m (Node k t v h c [child]) pa pwm = Inr ys \<longrightarrow>
      (\<forall>z\<in>set ys. ParentWasMap z))
   \<and> (scalar_keys content
        \<and> ParseNode m (Node DocumentNode dt dv dh dc [Node MappingNode mt mv mh mc content]) [] = Inr root
        \<longrightarrow> (\<forall>z\<in>set (Children root). \<not> ParentWasMap z))
   \<and> (scalar_keys content' \<and> ParseChildren m (Node k' t' v' h' c' content') pa' pwm' = Inr ys' \<longrightarrow>
      list_all2 (\<lambda>e z. nKind (snd e) = MappingNode \<and> scalar_keys (nContent (snd e)) \<longrightarrow>
                        (\<forall>c\<in>set (Children z). \<not> ParentWasMap c))
        (entries content') ys')"
proof (intro conjI impI)
  show "description_indent y = (if ParentWasMap y then Indent y else wrap_int (Indent y + 1))"
    by (simp add: description_indent_def)
next
  assume "- (2 ^ 63) \<le> x \<and> x < 2 ^ 63"
  then show "wrap_int x = x" by (simp add: wrap_int_in_range)
next
  show "FormattedDescription y =
       (if description_indent y < 0
           \<and> needs_indent (kept_lines 0 (Split_lines (commentPrefix_delete (Description y))))
        then Inl NegativeRepeatCount
        else Inr (Join (map (render_line (nat (description_indent y)))
                         (kept_lines 0 (Split_lines (commentPrefix_delete (Description y))))) [NL]))"
    by (simp add: FormattedDescription_char Let_def)
next
  show "render_line n (0, l) = l" by (simp add: render_line_def)
next
  show "render_line n (Suc i, []) = []" by (simp add: render_line_def)
next
  assume "l \<noteq> []"
  then show "render_line n (Suc i, l) = replicate n (CHR '' '') @ l" by (simp add: render_line_def)
next
  assume "nKind child \<noteq> ScalarNode \<and> scalar_keys (nContent child)
        \<and> ParseChildren m (Node k t v h c [child]) pa pwm = Inr ys"
  then show "\<forall>z\<in>set ys. ParentWasMap z" using unwrapped_entries_flagged by blast
next
  assume "scalar_keys content
        \<and> ParseNode m (Node DocumentNode dt dv dh dc [Node MappingNode mt mv mh mc content]) [] = Inr root"
  then show "\<forall>z\<in>set (Children root). \<not> ParentWasMap z"
    using top_level_entries_not_flagged by blast
next
  assume "scalar_keys content' \<and> ParseChildren m (Node k' t' v' h' c' content') pa' pwm' = Inr ys'"
  then have "list_all2 (\<lambda>e z. scalar_keys (nContent (snd e)) \<longrightarrow> (\<forall>c\<in>set (Children z). \<not> ParentWasMap c))
      (entries content') ys'"
    using ParseChildren_children_flags by blast
  then show "list_all2 (\<lambda>e z. nKind (snd e) = MappingNode \<and> scalar_keys (nContent (snd e)) \<longrightarrow>
                        (\<forall>c\<in>set (Children z). \<not> ParentWasMap c))
        (entries content') ys'"
    by (rule list_all2_mono) blast
qed

text \<open>
  The theorem at the comment block \<open># l1\<close>, \<open>#\<close>, \<open># l2\<close> of a key in column 3
  (three spaces with the flag, four without), at the sequence \<open>[{b: 1}]\<close> and at
  the document \<open>a: {b: 1}\<close>.
\<close>

theorem description_lines_reindented_witness:
  "FormattedDescription (YAMLNode 3 ''-a'' True ''b'' ''1''
       (''# l1'' @ [NL] @ ''#'' @ [NL] @ ''# l2'') ''!!int'' [])
     = Inr (''l1'' @ [NL] @ [NL] @ ''   l2'')
   \<and> FormattedDescription (YAMLNode 3 ''-a'' False ''b'' ''1''
       (''# l1'' @ [NL] @ ''#'' @ [NL] @ ''# l2'') ''!!int'' [])
     = Inr (''l1'' @ [NL] @ [NL] @ ''    l2'')
   \<and> wrap_int 4 = 4
   \<and> render_line 3 (Suc 1, ''l2'') = ''   l2''
   \<and> ParseChildren example_marshal (Node SequenceNode ''!!seq'' [] [] 1
        [Node MappingNode ''!!map'' [] [] 3
           [Node ScalarNode ''!!str'' ''b'' [] 3 [], Node ScalarNode ''!!int'' ''1'' [] 6 []]]) ''-a'' False
     = Inr [YAMLNode 3 ''-a'' True ''b'' ''1'' [] ''!!int'' []]
   \<and> list_all ParentWasMap [YAMLNode 3 ''-a'' True ''b'' ''1'' [] ''!!int'' []]
   \<and> ParseNode example_marshal (Node DocumentNode [] [] [] 1 [Node MappingNode ''!!map'' [] [] 1
        [Node ScalarNode ''!!str'' ''a'' [] 1 [],
         Node MappingNode ''!!map'' [] [] 3
           [Node ScalarNode ''!!str'' ''b'' [] 3 [], Node ScalarNode ''!!int'' ''1'' [] 6 []]]]) []
     = Inr (YAMLNode 0 [] False [] [] [] []
         [YAMLNode 1 [] False ''a'' [] [] ''!!map'' [YAMLNode 3 ''-a'' False ''b'' ''1'' [] ''!!int'' []]])
   \<and> list_all (\<lambda>z. \<not> ParentWasMap z)
        [YAMLNode 1 [] False ''a'' [] [] ''!!map'' [YAMLNode 3 ''-a'' False ''b'' ''1'' [] ''!!int'' []]]
   \<and> list_all2 (\<lambda>e z. nKind (snd e) = MappingNode \<and> scalar_keys (nContent (snd e)) \<longrightarrow>
                        (\<forall>c\<in>set (Children z). \<not> ParentWasMap c))
        (entries [Node ScalarNode ''!!str'' ''a'' [] 1 [],
           Node MappingNode ''!!map'' [] [] 3
             [Node ScalarNode ''!!str'' ''b'' [] 3 [], Node ScalarNode ''!!int'' ''1'' [] 6 []]])
        [YAMLNode 1 [] False ''a'' [] [] ''!!map'' [YAMLNode 3 ''-a'' False ''b'' ''1'' [] ''!!int'' []]]"
proof -
  let ?desc = "''# l1'' @ [NL] @ ''#'' @ [NL] @ ''# l2''"
  let ?b = "[Node ScalarNode ''!!str'' ''b'' [] 3 [], Node ScalarNode ''!!int'' ''1'' [] 6 []]"
  let ?mb = "Node MappingNode ''!!map'' [] [] 3 ?b"
  let ?ka = "Node ScalarNode ''!!str'' ''a'' [] 1 []"
  let ?yb = "YAMLNode 3 ''-a'' True ''b'' ''1'' [] ''!!int'' []"
  let ?ya = "YAMLNode 1 [] False ''a'' [] [] ''!!map'' [YAMLNode 3 ''-a'' False ''b'' ''1'' [] ''!!int'' []]"
  let ?root = "YAMLNode 0 [] False [] [] [] [] [?ya]"
  note ev = Anchor_def ToLower_def lower_char_def
  have p1: "ParseChildren example_marshal (Node SequenceNode ''!!seq'' [] [] 1 [?mb]) ''-a'' False
      = Inr [?yb]" by simp
  have p2: "ParseNode example_marshal (Node DocumentNode [] [] [] 1 [Node MappingNode ''!!map'' [] [] 1
        [?ka, ?mb]]) [] = Inr ?root"
    by (simp add: ev)
  have p3: "ParseChildren example_marshal (Node MappingNode ''!!map'' [] [] 1 [?ka, ?mb]) [] False
      = Inr [?ya]"
    by (simp add: ev)
  have w: "- (2 ^ 63) \<le> (4::int) \<and> (4::int) < 2 ^ 63" by simp
  note t1 = description_lines_reindented[where y = "YAMLNode 3 ''-a'' True ''b'' ''1'' ?desc ''!!int'' []"
      and x = 4 and n = 3 and l = "''l2''" and i = 1
      and child = ?mb and m = example_marshal and k = SequenceNode and t = "''!!seq''" and v = "[]"
      and h = "[]" and c = 1 and pa = "''-a''" and pwm = False and ys = "[?yb]"
      and content = "[?ka, ?mb]" and dt = "[]" and dv = "[]" and dh = "[]" and dc = 1
      and mt = "''!!map''" and mv = "[]" and mh = "[]" and mc = 1 and root = ?root
      and content' = "[?ka, ?mb]" and k' = MappingNode and t' = "''!!map''" and v' = "[]"
      and h' = "[]" and c' = 1 and pa' = "[]" and pwm' = False and ys' = "[?ya]"]
  note t2 = description_lines_reindented[where y = "YAMLNode 3 ''-a'' False ''b'' ''1'' ?desc ''!!int'' []"
      and x = 4 and n = 3 and l = "''l2''" and i = 1
      and child = ?mb and m = example_marshal and k = SequenceNode and t = "''!!seq''" and v = "[]"
      and h = "[]" and c = 1 and pa = "''-a''" and pwm = False and ys = "[?yb]"
      and content = "[?ka, ?mb]" and dt = "[]" and dv = "[]" and dh = "[]" and dc = 1
      and mt = "''!!map''" and mv = "[]" and mh = "[]" and mc = 1 and root = ?root
      and content' = "[?ka, ?mb]" and k' = MappingNode and t' = "''!!map''" and v' = "[]"
      and h' = "[]" and c' = 1 and pa' = "[]" and pwm' = False and ys' = "[?ya]"]
  have d1: "FormattedDescription (YAMLNode 3 ''-a'' True ''b'' ''1'' ?desc ''!!int'' [])
      = Inr (''l1'' @ [NL] @ [NL] @ ''   l2'')"
    using t1
    by (simp add: kept_lines_def needs_indent_def is_override_line_def HasPrefix_def render_line_def
          blank_def blanks_then_hash_def numeral_eq_Suc)
  have d2: "FormattedDescription (YAMLNode 3 ''-a'' False ''b'' ''1'' ?desc ''!!int'' [])
      = Inr (''l1'' @ [NL] @ [NL] @ ''    l2'')"
  proof -
    have wi: "wrap_int (3 + 1) = 4" by (simp add: wrap_int_def)
    from t2 have "description_indent (YAMLNode 3 ''-a'' False ''b'' ''1'' ?desc ''!!int'' []) = 4"
      using wi by simp
    with t2 show ?thesis
      by (simp add: kept_lines_def needs_indent_def is_override_line_def HasPrefix_def render_line_def
          blank_def blanks_then_hash_def numeral_eq_Suc)
  qed
  from t1 w have w4: "wrap_int 4 = 4" by blast
  from t1 have r: "render_line 3 (Suc 1, ''l2'') = ''   l2''" by (simp add: numeral_eq_Suc)
  from t1 p1 have f1: "list_all ParentWasMap [?yb]" by simp
  from t1 p2 have f2: "list_all (\<lambda>z. \<not> ParentWasMap z) [?ya]" by simp
  from t1 p3 have f3: "list_all2 (\<lambda>e z. nKind (snd e) = MappingNode \<and> scalar_keys (nContent (snd e)) \<longrightarrow>
                        (\<forall>c\<in>set (Children z). \<not> ParentWasMap c)) (entries [?ka, ?mb]) [?ya]"
    by simp
  from d1 d2 w4 r p1 f1 p2 f2 f3 show ?thesis by blast
qed

text \<open>
  C3 as the specification states it fails at \<open>foo: {bar: 1}\<close> with the
  comment lines \<open># l1\<close>, \<open># l2\<close> before \<open>bar\<close> in column 3: the parent of \<open>bar\<close> is a
  plain mapping, the flag is unset, and the second line is emitted after four
  spaces (\<open>Indent + 1\<close>), not after three.
\<close>

theorem child_of_plain_mapping_gets_one_more_space:
  "ParseNode example_marshal (Node DocumentNode [] [] [] 1 [Node MappingNode ''!!map'' [] [] 1
     [Node ScalarNode ''!!str'' ''foo'' [] 1 [],
      Node MappingNode ''!!map'' [] [] 3
        [Node ScalarNode ''!!str'' ''bar'' (''# l1'' @ [NL] @ ''# l2'') 3 [],
         Node ScalarNode ''!!int'' ''1'' [] 8 []]]]) []
   = Inr (YAMLNode 0 [] False [] [] [] []
       [YAMLNode 1 [] False ''foo'' [] [] ''!!map''
         [YAMLNode 3 ''-foo'' False ''bar'' ''1'' (''# l1'' @ [NL] @ ''# l2'') ''!!int'' []]])
   \<and> FormattedDescription
        (YAMLNode 3 ''-foo'' False ''bar'' ''1'' (''# l1'' @ [NL] @ ''# l2'') ''!!int'' [])
       = Inr (''l1'' @ [NL] @ ''    l2'')
   \<and> FormattedDescription
        (YAMLNode 3 ''-foo'' False ''bar'' ''1'' (''# l1'' @ [NL] @ ''# l2'') ''!!int'' [])
       \<noteq> Inr (''l1'' @ [NL] @ ''   l2'')"
  by (simp add: Anchor_def ToLower_def lower_char_def
        FormattedDescription_def blank_def blanks_then_hash_def HasPrefix_def TrimSuffix_def Repeat_def
        wrap_int_def suffix_to_prefix numeral_eq_Suc)

text \<open>
  For the lines that start with \<open>type:\<close> or \<open>default:\<close> once the comment marker
  is removed, stripping works: no line of a rendered description starts with either
  (\<open>rendered_lines_not_override\<close>). The values found by the patterns replace the
  kind and the default, as in the example of the specification.
\<close>

lemma override_values_replace:
  "(typeFromDescription (Description y) = Some v \<longrightarrow> Kind y = v)
   \<and> (defaultFromDescription (Description y) = Some w \<longrightarrow> FormattedDefault y = w)"
  by (simp add: Kind_def FormattedDefault_def)

lemma override_example:
  "Kind (YAMLNode i pa pwm k ''x''
        (''# desc'' @ [NL] @ ''# type: integer'' @ [NL] @ ''# default: 5'') ''!!str'' []) = ''integer''
   \<and> FormattedDefault (YAMLNode i pa pwm k ''x''
        (''# desc'' @ [NL] @ ''# type: integer'' @ [NL] @ ''# default: 5'') ''!!str'' []) = ''5''
   \<and> FormattedDescription (YAMLNode i pa pwm k ''x''
        (''# desc'' @ [NL] @ ''# type: integer'' @ [NL] @ ''# default: 5'') ''!!str'' []) = Inr ''desc''"
  by (simp add: Kind_def typeFromDescription_def FormattedDefault_def defaultFromDescription_def
        FindStringSubmatch1_def FormattedDescription_def blank_def blanks_then_hash_def HasPrefix_def
        TrimSuffix_def suffix_to_prefix)

text \<open>
  C5. Every line that supplies a type or default override should be absent from
  the rendered description. The code breaks this for a line that supplies the
  override after other text: the pattern \<open>.*type: (.*)$\<close> takes the kind \<open>foo\<close> from
  the comment line \<open># sets the type: foo\<close>, and the test
  \<open>HasPrefix(line, "type:")\<close> does not drop the line, so it stays in the rendered
  description.
\<close>

theorem override_line_with_leading_text_is_kept:
  "Kind (YAMLNode 1 [] False ''k'' ''x'' ''# sets the type: foo'' ''!!str'' []) = ''foo''
   \<and> FormattedDescription (YAMLNode 1 [] False ''k'' ''x'' ''# sets the type: foo'' ''!!str'' [])
       = Inr ''sets the type: foo''"
  by (simp add: Kind_def typeFromDescription_def FindStringSubmatch1_def
        FormattedDescription_def blank_def blanks_then_hash_def HasPrefix_def TrimSuffix_def
        suffix_to_prefix)

section \<open>Properties of the renderer\<close>

lemma descendants_Children: "descendants n = concat (map (\<lambda>c. c # descendants c) (Children n))"
  by (cases n) simp

lemma fragment_of_fun: "fragment_of y s \<Longrightarrow> fragment_of y s' \<Longrightarrow> s = s'"
  by (simp add: fragment_of_def)

lemma list_all2_fragment_fun:
  "list_all2 fragment_of ds xs \<Longrightarrow> list_all2 fragment_of ds ys \<Longrightarrow> xs = ys"
proof (induction ds arbitrary: xs ys)
  case Nil
  then show ?case by simp
next
  case (Cons d ds)
  from Cons.prems(1) obtain x xs' where xs: "xs = x # xs'" and x: "fragment_of d x"
    and xs': "list_all2 fragment_of ds xs'"
    unfolding list_all2_Cons1 by blast
  from Cons.prems(2) obtain y ys' where ys: "ys = y # ys'" and y: "fragment_of d y"
    and ys': "list_all2 fragment_of ds ys'"
    unfolding list_all2_Cons1 by blast
  from x y have "x = y" by (rule fragment_of_fun)
  moreover from xs' ys' have "xs' = ys'" by (rule Cons.IH)
  ultimately show ?case using xs ys by simp
qed

lemma list_all2_fragment_head:
  assumes "list_all2 fragment_of (concat (map (\<lambda>c. c # descendants c) (child # rest))) new"
  obtains z zs where "new = z # zs" and "fragment_of child z"
    and "list_all2 fragment_of (descendants child @ concat (map (\<lambda>c. c # descendants c) rest)) zs"
proof -
  from assms have "list_all2 fragment_of
      (child # descendants child @ concat (map (\<lambda>c. c # descendants c) rest)) new"
    by simp
  then show ?thesis unfolding list_all2_Cons1 using that by blast
qed

lemma GenChildren_char_aux:
  "(\<forall>out. GenChildren n = Inr out \<longleftrightarrow> list_all2 fragment_of (descendants n) out)"
  "(\<forall>out. GenChildren_loop cs acc = Inr out \<longleftrightarrow>
      (\<exists>new. out = acc @ new
         \<and> list_all2 fragment_of (concat (map (\<lambda>c. c # descendants c) cs)) new))"
proof (induction n and cs acc rule: GenChildren_GenChildren_loop.induct)
  case (1 i pa pwm k d desc kt children)
  then show ?case by simp
next
  case (2 out)
  then show ?case by auto
next
  case (3 child rest out)
  show ?case
  proof (cases "Execute child")
    case (Inl e)
    have "\<not> list_all2 fragment_of (concat (map (\<lambda>c. c # descendants c) (child # rest))) new" for new
    proof
      assume "list_all2 fragment_of (concat (map (\<lambda>c. c # descendants c) (child # rest))) new"
      then obtain z where "fragment_of child z" by (rule list_all2_fragment_head)
      with Inl show False by (simp add: fragment_of_def)
    qed
    moreover have "GenChildren_loop (child # rest) out = Inl e" using Inl by simp
    ultimately show ?thesis by simp
  next
    case (Inr nodeOut)
    note ex = Inr
    show ?thesis
    proof (cases "GenChildren child")
      case (Inl e)
      have no: "\<not> list_all2 fragment_of (descendants child) xs" for xs
        using 3(1)[OF ex] Inl by auto
      have "\<not> list_all2 fragment_of (concat (map (\<lambda>c. c # descendants c) (child # rest))) new" for new
      proof
        assume "list_all2 fragment_of (concat (map (\<lambda>c. c # descendants c) (child # rest))) new"
        then have "list_all2 fragment_of
            (child # descendants child @ concat (map (\<lambda>c. c # descendants c) rest)) new"
          by simp
        then obtain z zs where "list_all2 fragment_of
            (descendants child @ concat (map (\<lambda>c. c # descendants c) rest)) zs"
          unfolding list_all2_Cons1 by blast
        then obtain us where "list_all2 fragment_of (descendants child) us"
          unfolding list_all2_append1 by blast
        with no show False by blast
      qed
      then show ?thesis using ex Inl by simp
    next
      case (Inr childOut)
      have d: "list_all2 fragment_of (descendants child) childOut"
        using 3(1)[OF ex] Inr by blast
      have l: "GenChildren_loop (child # rest) out = GenChildren_loop rest ((out @ [nodeOut]) @ childOut)"
        using ex Inr by simp
      show ?thesis
      proof (intro allI iffI)
        fix r assume "GenChildren_loop (child # rest) out = Inr r"
        with l have "GenChildren_loop rest ((out @ [nodeOut]) @ childOut) = Inr r" by simp
        then obtain new where
          r: "r = ((out @ [nodeOut]) @ childOut) @ new"
          and n: "list_all2 fragment_of (concat (map (\<lambda>c. c # descendants c) rest)) new"
          using 3(2)[OF ex Inr] by blast
        have "list_all2 fragment_of (concat (map (\<lambda>c. c # descendants c) (child # rest)))
                (nodeOut # childOut @ new)"
          using n d ex by (simp add: fragment_of_def list_all2_appendI)
        then show "\<exists>new. r = out @ new \<and>
            list_all2 fragment_of (concat (map (\<lambda>c. c # descendants c) (child # rest))) new"
          using r by (intro exI[of _ "nodeOut # childOut @ new"]) simp
      next
        fix r assume "\<exists>new. r = out @ new \<and>
            list_all2 fragment_of (concat (map (\<lambda>c. c # descendants c) (child # rest))) new"
        then obtain new where r: "r = out @ new"
          and n0: "list_all2 fragment_of (concat (map (\<lambda>c. c # descendants c) (child # rest))) new"
          by blast
        from n0 have n: "list_all2 fragment_of (child # descendants child
                   @ concat (map (\<lambda>c. c # descendants c) rest)) new"
          by simp
        from n obtain z zs where nz: "new = z # zs" and z: "fragment_of child z"
          and zs: "list_all2 fragment_of
             (descendants child @ concat (map (\<lambda>c. c # descendants c) rest)) zs"
          unfolding list_all2_Cons1 by blast
        from zs obtain us vs where uv: "us @ vs = zs"
          and us: "list_all2 fragment_of (descendants child) us"
          and vs: "list_all2 fragment_of (concat (map (\<lambda>c. c # descendants c) rest)) vs"
          unfolding list_all2_append1 by blast
        from nz uv have new: "new = z # us @ vs" by simp
        from z ex have "z = nodeOut" by (simp add: fragment_of_def)
        moreover from us d have "us = childOut" by (rule list_all2_fragment_fun)
        ultimately have "r = ((out @ [nodeOut]) @ childOut) @ vs" using r new by simp
        with vs have "\<exists>new. r = ((out @ [nodeOut]) @ childOut) @ new
            \<and> list_all2 fragment_of (concat (map (\<lambda>c. c # descendants c) rest)) new"
          by blast
        then have "GenChildren_loop rest ((out @ [nodeOut]) @ childOut) = Inr r"
          using 3(2)[OF ex Inr] by blast
        then show "GenChildren_loop (child # rest) out = Inr r"
          using l by simp
      qed
    qed
  qed
qed

lemma GenChildren_char:
  "GenChildren n = Inr out \<longleftrightarrow> list_all2 fragment_of (descendants n) out"
  using GenChildren_char_aux(1) by blast

lemma descendants_siblings:
  "Children n = pre @ k1 # mid @ k2 # post \<Longrightarrow>
   descendants n =
     concat (map (\<lambda>c. c # descendants c) pre) @ k1 # descendants k1
     @ concat (map (\<lambda>c. c # descendants c) mid) @ k2 # descendants k2
     @ concat (map (\<lambda>c. c # descendants c) post)"
  by (cases n) simp

lemma Execute_succeeds_iff:
  "(\<exists>s. Execute y = Inr s) \<longleftrightarrow>
     0 \<le> leading_indent y
     \<and> \<not> (description_indent y < 0
          \<and> needs_indent (kept_lines 0 (Split_lines (commentPrefix_delete (Description y)))))"
proof -
  have li: "(\<exists>l. LeadingIndent y = Inr l) \<longleftrightarrow> 0 \<le> leading_indent y"
    by (simp add: LeadingIndent_def leading_indent_def Repeat_def)
  have fd: "(\<exists>d. FormattedDescription y = Inr d) \<longleftrightarrow>
      \<not> (description_indent y < 0
         \<and> needs_indent (kept_lines 0 (Split_lines (commentPrefix_delete (Description y)))))"
    by (simp add: FormattedDescription_char Let_def)
  have "(\<exists>s. Execute y = Inr s) \<longleftrightarrow> (\<exists>l. LeadingIndent y = Inr l) \<and> (\<exists>d. FormattedDescription y = Inr d)"
    by (cases "LeadingIndent y"; cases "FormattedDescription y") (simp_all add: Execute_def)
  with li fd show ?thesis by simp
qed

lemma list_all2_fragment_each:
  "list_all2 fragment_of ds out \<Longrightarrow> d \<in> set ds \<Longrightarrow> \<exists>s. fragment_of d s"
  by (induction rule: list_all2_induct) auto

lemma GenChildren_fails:
  assumes "d \<in> set (descendants node)" and "\<forall>s. Execute d \<noteq> Inr s"
  shows "\<exists>e. GenChildren node = Inl e"
proof (cases "GenChildren node")
  case (Inl e)
  then show ?thesis by blast
next
  case (Inr out)
  then have "list_all2 fragment_of (descendants node) out" by (simp add: GenChildren_char)
  with assms(1) obtain s where "fragment_of d s" using list_all2_fragment_each by blast
  with assms(2) show ?thesis by (simp add: fragment_of_def)
qed

text \<open>
  C8, as the code has it. The template succeeds on a node exactly when its
  leading indentation is not negative and its description needs no negative
  indentation. \<open>GenChildren\<close> returns a list of fragments exactly when the template
  succeeds on every descendant of the node, and the list then holds, in order, one
  fragment for each descendant in pre-order: none for the node itself, each child
  at once followed by its own descendants. So for siblings \<open>k1\<close> before \<open>k2\<close> the
  fragment of \<open>k1\<close> stands before that of \<open>k2\<close>, which is followed by those of the
  descendants of \<open>k2\<close>. \<open>Gen\<close> joins the fragments with two newlines. When the
  template fails on some descendant, \<open>GenChildren\<close> returns an error and \<open>Gen\<close>
  returns the empty string with that error: no fragment at all.
\<close>

theorem GenChildren_renders_descendants_in_preorder:
  "((\<exists>s. Execute y = Inr s) \<longleftrightarrow>
      0 \<le> leading_indent y
      \<and> \<not> (description_indent y < 0
           \<and> needs_indent (kept_lines 0 (Split_lines (commentPrefix_delete (Description y))))))
   \<and> (GenChildren node = Inr out \<longleftrightarrow> list_all2 (\<lambda>y s. Execute y = Inr s) (descendants node) out)
   \<and> (Children node = pre @ k1 # mid @ k2 # post \<longrightarrow>
        descendants node =
          concat (map (\<lambda>c. c # descendants c) pre) @ k1 # descendants k1
          @ concat (map (\<lambda>c. c # descendants c) mid) @ k2 # descendants k2
          @ concat (map (\<lambda>c. c # descendants c) post))
   \<and> (u s = Inr doc \<and> ParseNode m doc [] = Inr node \<and> GenChildren node = Inr out \<longrightarrow>
        Gen u m s = Inr (Join out [NL, NL], None))
   \<and> ((\<exists>d\<in>set (descendants node'). \<forall>s. Execute d \<noteq> Inr s) \<longrightarrow> (\<exists>e. GenChildren node' = Inl e))
   \<and> (u' s' = Inr doc' \<and> ParseNode m' doc' [] = Inr node' \<and> GenChildren node' = Inl e' \<longrightarrow>
        Gen u' m' s' = Inr ([], Some e'))"
proof (intro conjI impI)
  show "(\<exists>s. Execute y = Inr s) \<longleftrightarrow>
      0 \<le> leading_indent y
      \<and> \<not> (description_indent y < 0
           \<and> needs_indent (kept_lines 0 (Split_lines (commentPrefix_delete (Description y)))))"
    by (rule Execute_succeeds_iff)
next
  have "fragment_of = (\<lambda>y s. Execute y = Inr s)" by (simp add: fragment_of_def fun_eq_iff)
  then show "GenChildren node = Inr out \<longleftrightarrow> list_all2 (\<lambda>y s. Execute y = Inr s) (descendants node) out"
    using GenChildren_char[of node out] by simp
next
  assume "Children node = pre @ k1 # mid @ k2 # post"
  then show "descendants node =
          concat (map (\<lambda>c. c # descendants c) pre) @ k1 # descendants k1
          @ concat (map (\<lambda>c. c # descendants c) mid) @ k2 # descendants k2
          @ concat (map (\<lambda>c. c # descendants c) post)"
    by (rule descendants_siblings)
next
  assume "u s = Inr doc \<and> ParseNode m doc [] = Inr node \<and> GenChildren node = Inr out"
  then show "Gen u m s = Inr (Join out [NL, NL], None)"
    by (simp add: Gen_def Parse_def)
next
  assume "\<exists>d\<in>set (descendants node'). \<forall>s. Execute d \<noteq> Inr s"
  then show "\<exists>e. GenChildren node' = Inl e" using GenChildren_fails by blast
next
  assume "u' s' = Inr doc' \<and> ParseNode m' doc' [] = Inr node' \<and> GenChildren node' = Inl e'"
  then show "Gen u' m' s' = Inr ([], Some e')"
    by (simp add: Gen_def Parse_def)
qed

text \<open>
  The theorem at the tree of \<open>foo: {bar: 1}\<close>, \<open>baz: x\<close>, with the comment
  \<open># the foo setting\<close> before \<open>bar\<close>, and at the tree of \<open>a: [[x], [y]]\<close>, where the
  nodes built for the two inner sequences are zero values.
\<close>

theorem GenChildren_renders_descendants_in_preorder_witness:
  "GenChildren (YAMLNode 0 [] False [] [] [] []
      [YAMLNode 1 [] False ''foo'' [] [] ''!!map''
         [YAMLNode 3 ''-foo'' False ''bar'' ''1'' ''# the foo setting'' ''!!int'' []],
       YAMLNode 1 [] False ''baz'' ''x'' [] ''!!str'' []])
   = Inr [''- '' @ [CHR 0x60] @ ''foo'' @ [CHR 0x60] @ '' ((#v-foo))'',
          ''  - '' @ [CHR 0x60] @ ''bar'' @ [CHR 0x60] @ '' ((#v-foo-bar)) ('' @ [CHR 0x60]
            @ ''integer: 1'' @ [CHR 0x60] @ '') - the foo setting'',
          ''- '' @ [CHR 0x60] @ ''baz'' @ [CHR 0x60] @ '' ((#v-baz)) ('' @ [CHR 0x60]
            @ ''string: x'' @ [CHR 0x60] @ '')'']
   \<and> descendants (YAMLNode 0 [] False [] [] [] []
      [YAMLNode 1 [] False ''foo'' [] [] ''!!map''
         [YAMLNode 3 ''-foo'' False ''bar'' ''1'' ''# the foo setting'' ''!!int'' []],
       YAMLNode 1 [] False ''baz'' ''x'' [] ''!!str'' []])
     = [YAMLNode 1 [] False ''foo'' [] [] ''!!map''
         [YAMLNode 3 ''-foo'' False ''bar'' ''1'' ''# the foo setting'' ''!!int'' []],
        YAMLNode 3 ''-foo'' False ''bar'' ''1'' ''# the foo setting'' ''!!int'' [],
        YAMLNode 1 [] False ''baz'' ''x'' [] ''!!str'' []]
   \<and> Gen (parser_returning (Node DocumentNode [] [] [] 1 [Node MappingNode ''!!map'' [] [] 1
          [Node ScalarNode ''!!str'' ''foo'' [] 1 [],
           Node MappingNode ''!!map'' [] [] 3
             [Node ScalarNode ''!!str'' ''bar'' ''# the foo setting'' 3 [],
              Node ScalarNode ''!!int'' ''1'' [] 8 []],
           Node ScalarNode ''!!str'' ''baz'' [] 1 [],
           Node ScalarNode ''!!str'' ''x'' [] 6 []]])) example_marshal []
     = Inr (''- '' @ [CHR 0x60] @ ''foo'' @ [CHR 0x60] @ '' ((#v-foo))'' @ [NL, NL]
            @ ''  - '' @ [CHR 0x60] @ ''bar'' @ [CHR 0x60] @ '' ((#v-foo-bar)) ('' @ [CHR 0x60]
            @ ''integer: 1'' @ [CHR 0x60] @ '') - the foo setting'' @ [NL, NL]
            @ ''- '' @ [CHR 0x60] @ ''baz'' @ [CHR 0x60] @ '' ((#v-baz)) ('' @ [CHR 0x60]
            @ ''string: x'' @ [CHR 0x60] @ '')'', None)
   \<and> (\<exists>s. Execute (YAMLNode 3 ''-foo'' False ''bar'' ''1'' ''# the foo setting'' ''!!int'' []) = Inr s)
   \<and> (\<exists>e. GenChildren (YAMLNode 0 [] False [] [] [] []
         [YAMLNode 1 [] False ''a'' [] [] ''!!seq''
            [YAMLNode 0 [] False [] [] [] [] [], YAMLNode 0 [] False [] [] [] [] []]]) = Inl e)
   \<and> Gen (parser_returning (Node DocumentNode [] [] [] 1 [Node MappingNode ''!!map'' [] [] 1
          [Node ScalarNode ''!!str'' ''a'' [] 1 [],
           Node SequenceNode ''!!seq'' [] [] 4
             [Node SequenceNode ''!!seq'' [] [] 5 [Node ScalarNode ''!!str'' ''x'' [] 6 []],
              Node SequenceNode ''!!seq'' [] [] 10 [Node ScalarNode ''!!str'' ''y'' [] 11 []]]]]))
        example_marshal []
     = Inr ([], Some (ExecError NegativeRepeatCount))"
proof -
  let ?bar = "YAMLNode 3 ''-foo'' False ''bar'' ''1'' ''# the foo setting'' ''!!int'' []"
  let ?foo = "YAMLNode 1 [] False ''foo'' [] [] ''!!map'' [?bar]"
  let ?baz = "YAMLNode 1 [] False ''baz'' ''x'' [] ''!!str'' []"
  let ?root = "YAMLNode 0 [] False [] [] [] [] [?foo, ?baz]"
  let ?ffoo = "''- '' @ [CHR 0x60] @ ''foo'' @ [CHR 0x60] @ '' ((#v-foo))''"
  let ?fbar = "''  - '' @ [CHR 0x60] @ ''bar'' @ [CHR 0x60] @ '' ((#v-foo-bar)) ('' @ [CHR 0x60]
            @ ''integer: 1'' @ [CHR 0x60] @ '') - the foo setting''"
  let ?fbaz = "''- '' @ [CHR 0x60] @ ''baz'' @ [CHR 0x60] @ '' ((#v-baz)) ('' @ [CHR 0x60]
            @ ''string: x'' @ [CHR 0x60] @ '')''"
  let ?doc = "Node DocumentNode [] [] [] 1 [Node MappingNode ''!!map'' [] [] 1
          [Node ScalarNode ''!!str'' ''foo'' [] 1 [],
           Node MappingNode ''!!map'' [] [] 3
             [Node ScalarNode ''!!str'' ''bar'' ''# the foo setting'' 3 [],
              Node ScalarNode ''!!int'' ''1'' [] 8 []],
           Node ScalarNode ''!!str'' ''baz'' [] 1 [],
           Node ScalarNode ''!!str'' ''x'' [] 6 []]]"
  let ?zero = "YAMLNode 0 [] False [] [] [] [] []"
  let ?a = "YAMLNode 1 [] False ''a'' [] [] ''!!seq'' [?zero, ?zero]"
  let ?root' = "YAMLNode 0 [] False [] [] [] [] [?a]"
  let ?doc' = "Node DocumentNode [] [] [] 1 [Node MappingNode ''!!map'' [] [] 1
          [Node ScalarNode ''!!str'' ''a'' [] 1 [],
           Node SequenceNode ''!!seq'' [] [] 4
             [Node SequenceNode ''!!seq'' [] [] 5 [Node ScalarNode ''!!str'' ''x'' [] 6 []],
              Node SequenceNode ''!!seq'' [] [] 10 [Node ScalarNode ''!!str'' ''y'' [] 11 []]]]]"
  note ev = Execute_def LeadingIndent_def Repeat_def wrap_int_def FormattedDescription_def blank_def
    blanks_then_hash_def HasPrefix_def TrimSuffix_def suffix_to_prefix Anchor_def ToLower_def
    lower_char_def Kind_def typeFromDescription_def FindStringSubmatch1_def TrimLeft_def
    FormattedDefault_def defaultFromDescription_def TrimSpace_def space_runes_def numeral_eq_Suc
  have foo: "Execute ?foo = Inr ?ffoo" by (simp add: ev)
  have bar: "Execute ?bar = Inr ?fbar" by (simp add: ev)
  have baz: "Execute ?baz = Inr ?fbaz" by (simp add: ev)
  have parse: "ParseNode example_marshal ?doc [] = Inr ?root"
    by (simp add: Anchor_def ToLower_def lower_char_def)
  have zero: "Execute ?zero = Inl (ExecError NegativeRepeatCount)"
    by (simp add: Execute_def LeadingIndent_def Repeat_def wrap_int_def)
  have a: "\<exists>s. Execute ?a = Inr s" by (simp add: ev)
  have parse': "ParseNode example_marshal ?doc' [] = Inr ?root'"
    by (simp add: Anchor_def ToLower_def lower_char_def allScalars_def zero_YAMLNode_def)
  have gen': "GenChildren ?root' = Inl (ExecError NegativeRepeatCount)"
    using zero a by auto
  have bad: "\<exists>d\<in>set (descendants ?root'). \<forall>s. Execute d \<noteq> Inr s"
    using zero by simp
  note t = GenChildren_renders_descendants_in_preorder[where y = ?bar and node = ?root
      and out = "[?ffoo, ?fbar, ?fbaz]" and pre = "[]" and ?k1.0 = ?foo and mid = "[]" and ?k2.0 = ?baz
      and post = "[]" and u = "parser_returning ?doc" and s = "[]" and doc = ?doc and m = example_marshal
      and node' = ?root' and u' = "parser_returning ?doc'" and s' = "[]" and doc' = ?doc'
      and m' = example_marshal and e' = "ExecError NegativeRepeatCount"]
  from t foo bar baz have g: "GenChildren ?root = Inr [?ffoo, ?fbar, ?fbaz]" by simp
  from t have d: "descendants ?root = [?foo, ?bar, ?baz]" by simp
  from t g parse have gen: "Gen (parser_returning ?doc) example_marshal []
      = Inr (Join [?ffoo, ?fbar, ?fbaz] [NL, NL], None)"
    by (simp add: parser_returning_def)
  from t bar have okb: "\<exists>s. Execute ?bar = Inr s" by blast
  from t bad have f: "\<exists>e. GenChildren ?root' = Inl e" by blast
  from t parse' gen' have genf: "Gen (parser_returning ?doc') example_marshal []
      = Inr ([], Some (ExecError NegativeRepeatCount))"
    by (simp add: parser_returning_def)
  from g d gen okb f genf show ?thesis by simp
qed

text \<open>
  C8 as the specification states it fails at \<open>a: [[x], [y]]\<close>: the tree built has
  three nodes below the root, the node of \<open>a\<close> and a zero value for each inner
  sequence; the leading indentation of a zero value is \<open>-1\<close>, the template fails on
  it, and \<open>Gen\<close> returns no fragment, not even that of \<open>a\<close>.
\<close>

theorem built_tree_without_fragments:
  "ParseNode example_marshal (Node DocumentNode [] [] [] 1 [Node MappingNode ''!!map'' [] [] 1
          [Node ScalarNode ''!!str'' ''a'' [] 1 [],
           Node SequenceNode ''!!seq'' [] [] 4
             [Node SequenceNode ''!!seq'' [] [] 5 [Node ScalarNode ''!!str'' ''x'' [] 6 []],
              Node SequenceNode ''!!seq'' [] [] 10 [Node ScalarNode ''!!str'' ''y'' [] 11 []]]]]) []
     = Inr (YAMLNode 0 [] False [] [] [] []
         [YAMLNode 1 [] False ''a'' [] [] ''!!seq''
            [YAMLNode 0 [] False [] [] [] [] [], YAMLNode 0 [] False [] [] [] [] []]])
   \<and> length (descendants (YAMLNode 0 [] False [] [] [] []
         [YAMLNode 1 [] False ''a'' [] [] ''!!seq''
            [YAMLNode 0 [] False [] [] [] [] [], YAMLNode 0 [] False [] [] [] [] []]])) = 3
   \<and> Gen (parser_returning (Node DocumentNode [] [] [] 1 [Node MappingNode ''!!map'' [] [] 1
          [Node ScalarNode ''!!str'' ''a'' [] 1 [],
           Node SequenceNode ''!!seq'' [] [] 4
             [Node SequenceNode ''!!seq'' [] [] 5 [Node ScalarNode ''!!str'' ''x'' [] 6 []],
              Node SequenceNode ''!!seq'' [] [] 10 [Node ScalarNode ''!!str'' ''y'' [] 11 []]]]]))
        example_marshal []
     = Inr ([], Some (ExecError NegativeRepeatCount))"
proof -
  let ?zero = "YAMLNode 0 [] False [] [] [] [] []"
  let ?a = "YAMLNode 1 [] False ''a'' [] [] ''!!seq'' [?zero, ?zero]"
  let ?root = "YAMLNode 0 [] False [] [] [] [] [?a]"
  let ?doc = "Node DocumentNode [] [] [] 1 [Node MappingNode ''!!map'' [] [] 1
          [Node ScalarNode ''!!str'' ''a'' [] 1 [],
           Node SequenceNode ''!!seq'' [] [] 4
             [Node SequenceNode ''!!seq'' [] [] 5 [Node ScalarNode ''!!str'' ''x'' [] 6 []],
              Node SequenceNode ''!!seq'' [] [] 10 [Node ScalarNode ''!!str'' ''y'' [] 11 []]]]]"
  have zero: "Execute ?zero = Inl (ExecError NegativeRepeatCount)"
    by (simp add: Execute_def LeadingIndent_def Repeat_def wrap_int_def)
  have a: "\<exists>s. Execute ?a = Inr s"
    by (simp add: Execute_def LeadingIndent_def Repeat_def wrap_int_def FormattedDescription_def
          TrimSuffix_def suffix_to_prefix)
  have parse: "ParseNode example_marshal ?doc [] = Inr ?root"
    by (simp add: Anchor_def ToLower_def lower_char_def allScalars_def zero_YAMLNode_def)
  have gen: "GenChildren ?root = Inl (ExecError NegativeRepeatCount)"
    using zero a by auto
  have "Gen (parser_returning ?doc) example_marshal [] = Inr ([], Some (ExecError NegativeRepeatCount))"
    using parse gen by (simp add: Gen_def Parse_def parser_returning_def)
  with parse show ?thesis by simp
qed

end
